theory Spec2Isabelle
  imports Main
begin

section \<open>Python values and library functions used by rfid-db-tool.py\<close>

text \<open>
  The tool is one Python class, \<open>App\<close>, whose methods are Tk event handlers. The
  record list lives in a \<open>ttk.Treeview\<close>, the device is reached through a
  \<open>serial.Serial\<close> port. Each method is translated below as a function that takes the
  parts of the state it reads (the tree, the port, the file) and returns the parts it
  changes. Every \<open>try ... except\<close> of the source is a case distinction on a sum type.

  Strings are lists of characters; a character stands for a code point below 256.
  Bytes are natural numbers below 256. The integers of the source that are lengths,
  indices and unsigned values are natural numbers; \<open>int()\<close> of a text, which may be
  negative, is an integer.

  The source leans on three libraries, and the translation writes down what they do
  where the handlers depend on it: the functions of \<open>str\<close>, \<open>bytes\<close> and \<open>struct\<close>
  in this section; the Tk tree (unique item names, and the conversion of the values it
  hands back) in the next; pySerial's \<open>read\<close>, which returns what arrived before the
  timeout, in the section on the serial port.
\<close>

type_synonym byte = nat

datatype pyexc =
    ValueError string
  | StructError string
  | TclError string
  | SerialException string

fun exc_str :: "pyexc \<Rightarrow> string" where
  "exc_str (ValueError m) = m"
| "exc_str (StructError m) = m"
| "exc_str (TclError m) = m"
| "exc_str (SerialException m) = m"

text \<open>What \<open>struct.unpack\<close> and the comparisons of \<open>tree_confirm_entry\<close> range over:
  \<open>None\<close>, an integer, a tuple of integers.\<close>

datatype pyval = PyNone | PyInt nat | PyTuple "nat list"

subsection \<open>Characters\<close>

definition code :: "char \<Rightarrow> nat" where
  "code c = of_char c"

definition hex_digit :: "char \<Rightarrow> nat option" where
  "hex_digit c =
     (if 48 \<le> code c \<and> code c \<le> 57 then Some (code c - 48)
      else if 97 \<le> code c \<and> code c \<le> 102 then Some (code c - 87)
      else if 65 \<le> code c \<and> code c \<le> 70 then Some (code c - 55)
      else None)"

definition is_digit :: "char \<Rightarrow> bool" where
  "is_digit c = (48 \<le> code c \<and> code c \<le> 57)"

text \<open>\<open>Py_ISSPACE\<close>, the ASCII white space that \<open>bytes.fromhex\<close> skips.\<close>

definition Py_ISSPACE :: "char \<Rightarrow> bool" where
  "Py_ISSPACE c = ((9 \<le> code c \<and> code c \<le> 13) \<or> code c = 32)"

text \<open>\<open>str.isspace\<close> on one character below 256, which \<open>rstrip()\<close> uses.\<close>

definition py_isspace :: "char \<Rightarrow> bool" where
  "py_isspace c =
     ((9 \<le> code c \<and> code c \<le> 13) \<or> (28 \<le> code c \<and> code c \<le> 32)
      \<or> code c = 133 \<or> code c = 160)"

text \<open>The white space that \<open>int()\<close> skips around the digits of a text: the ASCII
  white space and the two other spaces below 256; the separators 28 to 31 are not
  skipped.\<close>

definition int_isspace :: "char \<Rightarrow> bool" where
  "int_isspace c = (Py_ISSPACE c \<or> code c = 133 \<or> code c = 160)"

subsection \<open>Decimal and hexadecimal text\<close>

text \<open>\<open>str(n)\<close> for a Python integer.\<close>

function py_str_nat :: "nat \<Rightarrow> string" where
  "py_str_nat n =
     (if n < 10 then [char_of (48 + n)]
      else py_str_nat (n div 10) @ [char_of (48 + n mod 10)])"
  by pat_completeness auto
termination
  by (relation "measure (\<lambda>n. n)") auto

declare py_str_nat.simps [simp del]

definition py_str_int :: "int \<Rightarrow> string" where
  "py_str_int i = (if i < 0 then CHR ''-'' # py_str_nat (nat (- i)) else py_str_nat (nat i))"

text \<open>\<open>int(s)\<close> for a text, base 10: white space around, one optional sign, decimal
  digits with single underscores between digits. \<open>None\<close> stands for \<open>ValueError\<close>.\<close>

fun digits_from :: "nat \<Rightarrow> string \<Rightarrow> nat option" where
  "digits_from acc [] = Some acc"
| "digits_from acc [c] = (if is_digit c then Some (acc * 10 + (code c - 48)) else None)"
| "digits_from acc (c # d # ds) =
     (if is_digit c then digits_from (acc * 10 + (code c - 48)) (d # ds)
      else if c = CHR ''_'' \<and> is_digit d then digits_from (acc * 10 + (code d - 48)) ds
      else None)"

definition py_digits :: "string \<Rightarrow> nat option" where
  "py_digits s =
     (case s of [] \<Rightarrow> None
      | c # cs \<Rightarrow> if is_digit c then digits_from (code c - 48) cs else None)"

definition rstrip :: "string \<Rightarrow> string" where
  "rstrip s = rev (dropWhile py_isspace (rev s))"

definition int_strip :: "string \<Rightarrow> string" where
  "int_strip s = dropWhile int_isspace (rev (dropWhile int_isspace (rev s)))"

definition py_int :: "string \<Rightarrow> int option" where
  "py_int s =
     (case int_strip s of [] \<Rightarrow> None
      | c # cs \<Rightarrow>
          if c = CHR ''-'' then map_option (\<lambda>n. - int n) (py_digits cs)
          else if c = CHR ''+'' then map_option int (py_digits cs)
          else map_option int (py_digits (c # cs)))"

text \<open>\<open>s.zfill(width)\<close>: zeros on the left, after a leading sign.\<close>

definition zfill :: "nat \<Rightarrow> string \<Rightarrow> string" where
  "zfill width s =
     (case s of [] \<Rightarrow> replicate width (CHR ''0'')
      | c # r \<Rightarrow>
          if c = CHR ''+'' \<or> c = CHR ''-''
          then c # replicate (width - length s) (CHR ''0'') @ r
          else replicate (width - length s) (CHR ''0'') @ s)"

text \<open>\<open>bytes.fromhex(s)\<close> and \<open>bytearray.fromhex(s)\<close>: two hexadecimal digits per byte,
  ASCII white space skipped between bytes, \<open>ValueError\<close> with the position of the first
  character that is not a digit (the end of the text, when a digit is missing).\<close>

definition fromhex_error :: "nat \<Rightarrow> pyexc" where
  "fromhex_error pos =
     ValueError (''non-hexadecimal number found in fromhex() arg at position '' @ py_str_nat pos)"

fun fromhex_from :: "nat \<Rightarrow> string \<Rightarrow> pyexc + byte list" where
  "fromhex_from pos [] = Inr []"
| "fromhex_from pos [c] =
     (if Py_ISSPACE c then Inr []
      else case hex_digit c of None \<Rightarrow> Inl (fromhex_error pos)
           | Some hi \<Rightarrow> Inl (fromhex_error (pos + 1)))"
| "fromhex_from pos (c # d # ds) =
     (if Py_ISSPACE c then fromhex_from (pos + 1) (d # ds)
      else case hex_digit c of None \<Rightarrow> Inl (fromhex_error pos)
           | Some hi \<Rightarrow>
               (case hex_digit d of None \<Rightarrow> Inl (fromhex_error (pos + 1))
                | Some lo \<Rightarrow>
                    (case fromhex_from (pos + 2) ds of Inl e \<Rightarrow> Inl e
                     | Inr bs \<Rightarrow> Inr ((hi * 16 + lo) # bs))))"

definition fromhex :: "string \<Rightarrow> pyexc + byte list" where
  "fromhex s = fromhex_from 0 s"

text \<open>\<open>b.hex()\<close>: two lower-case digits per byte.\<close>

definition hex_char :: "nat \<Rightarrow> char" where
  "hex_char d = (if d < 10 then char_of (48 + d) else char_of (87 + d))"

definition bytes_hex :: "byte list \<Rightarrow> string" where
  "bytes_hex bs = concat (map (\<lambda>b. [hex_char (b div 16), hex_char (b mod 16)]) bs)"

subsection \<open>\<open>struct.pack('>I', n)\<close> and \<open>struct.unpack('>I', b)\<close>\<close>

definition pack_BE_I :: "nat \<Rightarrow> pyexc + byte list" where
  "pack_BE_I n =
     (if n < 2 ^ 32
      then Inr [n div 16777216, n div 65536 mod 256, n div 256 mod 256, n mod 256]
      else Inl (StructError (CHR 0x27 # ''I'' @ CHR 0x27
                  # '' format requires 0 <= number <= 4294967295'')))"

text \<open>The result of \<open>struct.unpack\<close> is a tuple, here of one element.\<close>

definition unpack_BE_I :: "byte list \<Rightarrow> pyexc + pyval" where
  "unpack_BE_I b =
     (case b of
        [b0, b1, b2, b3] \<Rightarrow> Inr (PyTuple [((b0 * 256 + b1) * 256 + b2) * 256 + b3])
      | _ \<Rightarrow> Inl (StructError ''unpack requires a buffer of 4 bytes''))"

subsection \<open>\<open>line.split(',', maxsplit=1)\<close> and reading a text file line by line\<close>

definition split_comma :: "string \<Rightarrow> string list" where
  "split_comma s =
     (case dropWhile (\<lambda>c. c \<noteq> CHR '','') s of
        [] \<Rightarrow> [s]
      | c # r \<Rightarrow> [takeWhile (\<lambda>c. c \<noteq> CHR '','') s, r])"

text \<open>\<open>for line in f\<close> on a file opened in text mode: a line ends at \<open>\n\<close>, \<open>\r\n\<close> or
  \<open>\r\<close>, and each of them is handed over as \<open>\n\<close>. The first argument holds the
  characters of the line read so far.\<close>

fun file_lines :: "string \<Rightarrow> string \<Rightarrow> string list" where
  "file_lines cur [] = (if cur = [] then [] else [cur])"
| "file_lines cur [c] =
     (if c = CHR 0x0A \<or> c = CHR 0x0D then [cur @ [CHR 0x0A]] else [cur @ [c]])"
| "file_lines cur (c # d # ds) =
     (if c = CHR 0x0D \<and> d = CHR 0x0A then (cur @ [CHR 0x0A]) # file_lines [] ds
      else if c = CHR 0x0A \<or> c = CHR 0x0D then (cur @ [CHR 0x0A]) # file_lines [] (d # ds)
      else file_lines (cur @ [c]) (d # ds))"

section \<open>The Tk tree view that holds the record list\<close>

text \<open>
  An item of the tree has a name (its \<open>iid\<close>) and the two column values
  \<open>values=(data_id_hex, data_text)\<close>. The handlers pass the tuple that
  \<open>struct.unpack\<close> returned as \<open>iid\<close>; Tk names the item by the string form of that
  argument, the decimal numeral of the tuple's one element, so two items have the same
  name exactly when the numbers are equal. The model keeps the number.

  \<open>tree.insert\<close> raises \<open>TclError\<close> when an item of that name exists, \<open>tree.index\<close> and
  \<open>tree.delete\<close> raise it when none does.
\<close>

record tree_item =
  iid :: nat
  data_id_hex :: string
  data_text :: string

type_synonym treeview = "tree_item list"

datatype tk_index = End | At nat

fun tk_iid :: "pyval \<Rightarrow> nat option" where
  "tk_iid (PyTuple [n]) = Some n"
| "tk_iid (PyInt n) = Some n"
| "tk_iid _ = None"

definition tk_exists :: "treeview \<Rightarrow> nat \<Rightarrow> bool" where
  "tk_exists t i = (i \<in> set (map iid t))"

definition tk_insert :: "treeview \<Rightarrow> tk_index \<Rightarrow> pyval \<Rightarrow> string \<times> string \<Rightarrow> pyexc + treeview" where
  "tk_insert t idx name vals =
     (case tk_iid name of
        None \<Rightarrow> Inl (TclError ''bad item name'')
      | Some i \<Rightarrow>
          if tk_exists t i then Inl (TclError ''Item already exists'')
          else let it = \<lparr>iid = i, data_id_hex = fst vals, data_text = snd vals\<rparr>
               in Inr (case idx of End \<Rightarrow> t @ [it] | At k \<Rightarrow> take k t @ it # drop k t))"

fun position :: "treeview \<Rightarrow> nat \<Rightarrow> nat option" where
  "position [] i = None"
| "position (x # xs) i = (if iid x = i then Some 0 else map_option Suc (position xs i))"

definition tk_index_of :: "treeview \<Rightarrow> nat \<Rightarrow> pyexc + nat" where
  "tk_index_of t i =
     (case position t i of None \<Rightarrow> Inl (TclError ''Item not found'') | Some k \<Rightarrow> Inr k)"

definition tk_delete :: "treeview \<Rightarrow> nat \<Rightarrow> pyexc + treeview" where
  "tk_delete t i =
     (if tk_exists t i then Inr (filter (\<lambda>x. iid x \<noteq> i) t)
      else Inl (TclError ''Item not found''))"

text \<open>
  \<open>tree.item(child)['values']\<close> does not hand the stored texts back: \<open>tkinter.ttk\<close>
  passes every value through \<open>_convert_stringval\<close> (\<open>Treeview.item\<close> calls
  \<open>_val_or_dict\<close>, which converts with \<open>_tclobj_to_py\<close>), and that function returns
  \<open>int(value)\<close> when \<open>int\<close> accepts the text and the text otherwise. This is why
  the handlers apply \<open>str\<close> to the values, and why the save handler writes
  \<open>str(values[0]).zfill(8)\<close>: an identifier such as \<open>00001234\<close> comes back as the
  integer 1234.
\<close>

datatype tkval = TkInt int | TkStr string

definition convert_stringval :: "string \<Rightarrow> tkval" where
  "convert_stringval v = (case py_int v of Some n \<Rightarrow> TkInt n | None \<Rightarrow> TkStr v)"

fun py_str :: "tkval \<Rightarrow> string" where
  "py_str (TkInt n) = py_str_int n"
| "py_str (TkStr s) = s"

definition item_values :: "tree_item \<Rightarrow> tkval \<times> tkval" where
  "item_values it = (convert_stringval (data_id_hex it), convert_stringval (data_text it))"

section \<open>The record list: loading, editing, deleting\<close>

definition insert_data_item :: "string \<Rightarrow> treeview \<Rightarrow> treeview" where
  "insert_data_item line t =
     (case split_comma line of
        [p0, p1] \<Rightarrow>
          (let hex = rstrip p0; txt = rstrip p1 in
           case fromhex hex of Inl e \<Rightarrow> t
           | Inr b \<Rightarrow>
               (case unpack_BE_I b of Inl e \<Rightarrow> t
                | Inr data_id \<Rightarrow>
                    (case tk_insert t End data_id (hex, txt) of Inl e \<Rightarrow> t | Inr t' \<Rightarrow> t')))
      | _ \<Rightarrow> t)"

text \<open>The file is \<open>None\<close> when \<open>data.txt\<close> cannot be opened.\<close>

definition load_data_from_file :: "string option \<Rightarrow> treeview \<Rightarrow> treeview" where
  "load_data_from_file file t =
     (case file of None \<Rightarrow> t | Some content \<Rightarrow> fold insert_data_item (file_lines [] content) t)"

text \<open>\<open>item\<close> is \<open>None\<close> for the Add dialog and the name of the item for the Edit
  dialog. The result is the returned boolean and the tree.\<close>

definition tree_confirm_entry :: "nat option \<Rightarrow> string \<Rightarrow> string \<Rightarrow> treeview \<Rightarrow> bool \<times> treeview" where
  "tree_confirm_entry item hex txt t =
     (if hex = [] \<or> length hex \<noteq> 8 \<or> txt = [] then (False, t)
      else case fromhex hex of Inl e \<Rightarrow> (False, t)
      | Inr b \<Rightarrow>
          (case unpack_BE_I b of Inl e \<Rightarrow> (False, t)
           | Inr data_id \<Rightarrow>
               if data_id = PyNone \<or> data_id = PyInt 0 then (False, t)
               else
                 (case item of
                    Some i \<Rightarrow>
                      (case tk_index_of t i of Inl e \<Rightarrow> (False, t)
                       | Inr current_index \<Rightarrow>
                           (case tk_delete t i of Inl e \<Rightarrow> (False, t)
                            | Inr t1 \<Rightarrow>
                                (case tk_insert t1 (At current_index) data_id (hex, txt) of
                                   Inl e \<Rightarrow> (False, t1)
                                 | Inr t2 \<Rightarrow> (True, t2))))
                  | None \<Rightarrow>
                      (case tk_insert t End data_id (hex, txt) of
                         Inl e \<Rightarrow> (False, t)
                       | Inr t2 \<Rightarrow> (True, t2)))))"

text \<open>\<open>data_delete\<close>: \<open>tree.delete\<close> raises for a name that is not in the tree, and the
  tree is as it was.\<close>

definition data_delete :: "nat option \<Rightarrow> treeview \<Rightarrow> treeview" where
  "data_delete item t =
     (case item of None \<Rightarrow> t
      | Some i \<Rightarrow> (case tk_delete t i of Inl e \<Rightarrow> t | Inr t' \<Rightarrow> t'))"

section \<open>The configuration constants of \<open>App.__init__\<close>\<close>

definition PACKET_MAX_COUNT :: nat where
  "PACKET_MAX_COUNT = 32"

definition COMMAND_PINGPONG :: nat where
  "COMMAND_PINGPONG = 0xCD000000"

definition ANSWER_PINGPONG :: nat where
  "ANSWER_PINGPONG = 0xDC000000"

definition COMMAND_WRITECOUNT :: nat where
  "COMMAND_WRITECOUNT = 0xCD010000"

definition ANSWER_WRITECOUNT :: nat where
  "ANSWER_WRITECOUNT = 0xDC010000"

definition COMMAND_WRITEDATA :: nat where
  "COMMAND_WRITEDATA = 0xCD020000"

definition ANSWER_WRITEDATA :: nat where
  "ANSWER_WRITEDATA = 0xDC020000"

definition COMMAND_READLAST :: nat where
  "COMMAND_READLAST = 0xCD030000"

definition ANSWER_READLAST :: nat where
  "ANSWER_READLAST = 0xDC030000"

definition DEVICES_COUNT_MAX :: nat where
  "DEVICES_COUNT_MAX = 0xFFFF"

section \<open>The serial port\<close>

text \<open>
  The port is open or closed, has the list of what the coming calls of \<open>read\<close> will
  deliver, and the list of what has been written. \<open>serial.read(4)\<close> returns at most
  four bytes: all four when the device has sent them within the timeout, fewer (also
  none) otherwise; it raises when the link fails. When nothing is left in the list the
  device is silent and \<open>read\<close> returns no byte.
\<close>

datatype rx_event = Rx "byte list" | RxFault string

record serial_port =
  is_open :: bool
  rx :: "rx_event list"
  tx :: "byte list list"

definition serial_write :: "serial_port \<Rightarrow> byte list \<Rightarrow> serial_port" where
  "serial_write p b = p\<lparr>tx := tx p @ [b]\<rparr>"

definition serial_read :: "serial_port \<Rightarrow> nat \<Rightarrow> (pyexc + byte list) \<times> serial_port" where
  "serial_read p n =
     (case rx p of
        [] \<Rightarrow> (Inr [], p)
      | Rx b # r \<Rightarrow> (Inr (take n b), p\<lparr>rx := r\<rparr>)
      | RxFault m # r \<Rightarrow> (Inl (SerialException m), p\<lparr>rx := r\<rparr>))"

section \<open>The protocol handlers\<close>

text \<open>\<open>self.serial\<close> is \<open>None\<close> or a port. Each handler returns its result and the
  port as it leaves it.\<close>

definition serial_protocol_check :: "serial_port option \<Rightarrow> bool \<times> serial_port option" where
  "serial_protocol_check serial =
     (case serial of
        None \<Rightarrow> (False, serial)
      | Some p \<Rightarrow>
          if \<not> is_open p then (False, serial)
          else
            (case pack_BE_I COMMAND_PINGPONG of Inl e \<Rightarrow> (False, serial)
             | Inr request \<Rightarrow>
                 (case pack_BE_I ANSWER_PINGPONG of Inl e \<Rightarrow> (False, serial)
                  | Inr expected_answer \<Rightarrow>
                      (case serial_read (serial_write p request) 4 of
                         (Inl e, p') \<Rightarrow> (False, Some p')
                       | (Inr answer, p') \<Rightarrow>
                           if answer \<noteq> expected_answer then (False, Some p')
                           else (True, Some p')))))"

text \<open>\<open>read_last_id_handler\<close> returns a text for the ID entry of the dialog: its
  argument \<open>default\<close> (here \<open>dflt\<close>), or the hexadecimal form of what the second read
  returned. pySerial's \<open>read\<close> returns a bytes object, never \<open>None\<close>, so the test
  \<open>data_id is None\<close> of the source has no branch here.\<close>

definition read_last_id_handler :: "serial_port option \<Rightarrow> string \<Rightarrow> string \<times> serial_port option" where
  "read_last_id_handler serial dflt =
     (case serial of
        None \<Rightarrow> (dflt, serial)
      | Some p \<Rightarrow>
          if \<not> is_open p then (dflt, serial)
          else
            (case pack_BE_I COMMAND_READLAST of Inl e \<Rightarrow> (dflt, serial)
             | Inr request \<Rightarrow>
                 (case pack_BE_I ANSWER_READLAST of Inl e \<Rightarrow> (dflt, serial)
                  | Inr expected_answer \<Rightarrow>
                      (case serial_read (serial_write p request) 4 of
                         (Inl e, p1) \<Rightarrow> (dflt, Some p1)
                       | (Inr answer, p1) \<Rightarrow>
                           if answer \<noteq> expected_answer then (dflt, Some p1)
                           else
                             (case serial_read p1 4 of
                                (Inl e, p2) \<Rightarrow> (dflt, Some p2)
                              | (Inr data_id, p2) \<Rightarrow>
                                  (zfill 8 (bytes_hex data_id), Some p2))))))"

subsection \<open>Writing the list to the device\<close>

datatype popup = ShowError string | ShowInfo string

text \<open>The inner loop \<open>for j in range(current_count)\<close>, over the items
  \<open>children[i + j]\<close>: the identifier text read back from the tree goes through
  \<open>bytearray.fromhex\<close> and is written. The result is the exception that ended the loop,
  if any, and the port.\<close>

definition id_request :: "tree_item \<Rightarrow> pyexc + byte list" where
  "id_request child = fromhex (py_str (fst (item_values child)))"

fun write_ids :: "tree_item list \<Rightarrow> serial_port \<Rightarrow> pyexc option \<times> serial_port" where
  "write_ids [] p = (None, p)"
| "write_ids (child # rest) p =
     (case id_request child of
        Inl e \<Rightarrow> (Some e, p)
      | Inr request \<Rightarrow> write_ids rest (serial_write p request))"

definition current_count_of :: "nat \<Rightarrow> nat \<Rightarrow> nat" where
  "current_count_of count i =
     (if count - i > PACKET_MAX_COUNT then PACKET_MAX_COUNT else count - i)"

text \<open>The loop \<open>while i < count\<close>. The result is \<open>(result, result_txt)\<close> and the port.\<close>

function write_loop :: "treeview \<Rightarrow> nat \<Rightarrow> nat \<Rightarrow> serial_port \<Rightarrow> (bool \<times> string) \<times> serial_port" where
  "write_loop children count i p =
     (if i < count then
        (case pack_BE_I (COMMAND_WRITEDATA + current_count_of count i) of
           Inl e \<Rightarrow> ((False, exc_str e), p)
         | Inr request \<Rightarrow>
             (case write_ids (map (\<lambda>j. children ! (i + j)) [0..<current_count_of count i])
                     (serial_write p request) of
                (Some e, p1) \<Rightarrow> ((False, exc_str e), p1)
              | (None, p1) \<Rightarrow>
                  (case pack_BE_I (ANSWER_WRITEDATA + current_count_of count i) of
                     Inl e \<Rightarrow> ((False, exc_str e), p1)
                   | Inr expected_answer \<Rightarrow>
                       (case serial_read p1 4 of
                          (Inl e, p2) \<Rightarrow> ((False, exc_str e), p2)
                        | (Inr answer, p2) \<Rightarrow>
                            if answer \<noteq> expected_answer
                            then ((False, ''Unexpected answer''), p2)
                            else write_loop children count (i + current_count_of count i) p2))))
      else ((True, []), p))"
  by pat_completeness auto
termination
  by (relation "measure (\<lambda>(children, count, i, p). count - i)")
     (auto simp: current_count_of_def PACKET_MAX_COUNT_def)

declare write_loop.simps [simp del]

text \<open>The \<open>try\<close> block of \<open>tree_popup_menu_write_handler\<close>.\<close>

definition write_all :: "treeview \<Rightarrow> nat \<Rightarrow> serial_port \<Rightarrow> (bool \<times> string) \<times> serial_port" where
  "write_all children count p =
     (case pack_BE_I (COMMAND_WRITECOUNT + count) of
        Inl e \<Rightarrow> ((False, exc_str e), p)
      | Inr request \<Rightarrow>
          (case pack_BE_I (ANSWER_WRITECOUNT + count) of
             Inl e \<Rightarrow> ((False, exc_str e), p)
           | Inr expected_answer \<Rightarrow>
               (case serial_read (serial_write p request) 4 of
                  (Inl e, p1) \<Rightarrow> ((False, exc_str e), p1)
                | (Inr answer, p1) \<Rightarrow>
                    if answer \<noteq> expected_answer then ((False, []), p1)
                    else write_loop children count 0 p1)))"

definition tree_popup_menu_write_handler :: "treeview \<Rightarrow> serial_port option \<Rightarrow> popup \<times> serial_port option" where
  "tree_popup_menu_write_handler t serial =
     (case serial of
        None \<Rightarrow> (ShowError ''No connection'', serial)
      | Some p \<Rightarrow>
          if \<not> is_open p then (ShowError ''No connection'', serial)
          else if length t > DEVICES_COUNT_MAX then (ShowError ''Too much data'', serial)
          else
            (case write_all t (length t) p of
               ((result, result_txt), p') \<Rightarrow>
                 (if \<not> result then ShowError (''Communication error: '' @ result_txt)
                  else ShowInfo (''Written '' @ py_str_nat (length t) @ '' lines''),
                  Some p')))"

subsection \<open>Saving the list\<close>

text \<open>One line of \<open>data.txt\<close> as the save handler writes it.\<close>

definition save_line :: "tree_item \<Rightarrow> string" where
  "save_line child =
     zfill 8 (py_str (fst (item_values child))) @ '','' @ py_str (snd (item_values child))
       @ [CHR 0x0D, CHR 0x0A]"

text \<open>The file is \<open>None\<close> while it does not exist. When \<open>open('data.txt', 'w')\<close> fails
  (\<open>writable\<close> is false) the exception is passed over and the file is as it was; the
  message is the same, since \<open>result\<close> is never set to \<open>False\<close>. The file holds the
  characters as they are written (no translation of \<open>\n\<close>, as on POSIX systems).\<close>

definition tree_popup_menu_save_handler :: "treeview \<Rightarrow> bool \<Rightarrow> string option \<Rightarrow> popup \<times> string option" where
  "tree_popup_menu_save_handler t writable file =
     (if length t > DEVICES_COUNT_MAX then (ShowError ''Too much data'', file)
      else (ShowInfo (''Saved '' @ py_str_nat (length t) @ '' lines''),
            if writable then Some (concat (map save_line t)) else file))"

section \<open>Request frames and their fields\<close>

text \<open>The source builds a request as \<open>struct.pack('>I', COMMAND + parameter)\<close>, with one
  command constant per subcommand.\<close>

definition command :: "nat \<Rightarrow> nat" where
  "command sub =
     (if sub = 0 then COMMAND_PINGPONG
      else if sub = 1 then COMMAND_WRITECOUNT
      else if sub = 2 then COMMAND_WRITEDATA
      else COMMAND_READLAST)"

definition encode :: "nat \<Rightarrow> nat \<Rightarrow> pyexc + byte list" where
  "encode sub param = pack_BE_I (command sub + param)"

record frame =
  magic :: nat
  subcommand :: nat
  parameter :: nat

text \<open>Modelled from the spec: the frame decoder. The source never splits an answer into
  fields (it compares the four bytes with the packed expected answer), so \<open>decode\<close>
  follows the spec's frame layout: a magic byte, a subcommand byte and a 16-bit
  parameter, big-endian; fewer or more than four bytes are a malformed frame.\<close>

definition decode :: "byte list \<Rightarrow> frame option" where
  "decode b =
     (case b of
        [b0, b1, b2, b3] \<Rightarrow> Some \<lparr>magic = b0, subcommand = b1, parameter = b2 * 256 + b3\<rparr>
      | _ \<Rightarrow> None)"

section \<open>Notions used to state the properties\<close>

text \<open>The identifier that a hexadecimal text denotes: the number in the tuple that
  \<open>struct.unpack('>I', bytes.fromhex(text))\<close> returns, when both calls succeed.\<close>

definition id_of_hex :: "string \<Rightarrow> nat option" where
  "id_of_hex hex =
     (case fromhex hex of Inl e \<Rightarrow> None
      | Inr b \<Rightarrow> (case unpack_BE_I b of Inr (PyTuple [n]) \<Rightarrow> Some n | _ \<Rightarrow> None))"

text \<open>What the user can do to the record list: the file is loaded (at start), the Add
  dialog or the Edit dialog of an item is confirmed, an item is deleted.\<close>

datatype user_action =
    Load "string option"
  | Add string string
  | Edit nat string string
  | Delete nat

fun perform :: "user_action \<Rightarrow> treeview \<Rightarrow> treeview" where
  "perform (Load file) t = load_data_from_file file t"
| "perform (Add hex txt) t = snd (tree_confirm_entry None hex txt t)"
| "perform (Edit i hex txt) t = snd (tree_confirm_entry (Some i) hex txt t)"
| "perform (Delete i) t = data_delete (Some i) t"

text \<open>The value of a text of decimal digits.\<close>

definition dec_val :: "string \<Rightarrow> nat" where
  "dec_val s = foldl (\<lambda>a c. a * 10 + (code c - 48)) 0 s"

text \<open>A label that the save handler writes and the loader reads back unchanged: the
  tree hands it back as it is (it is not a text that \<open>int()\<close> accepts in another form
  than \<open>str()\<close> of its value, such as \<open>007\<close>), it has no white space at its end and
  no line break.\<close>

definition label_kept :: "string \<Rightarrow> bool" where
  "label_kept txt =
     (py_str (convert_stringval txt) = txt \<and> rstrip txt = txt
      \<and> CHR 0x0A \<notin> set txt \<and> CHR 0x0D \<notin> set txt)"

text \<open>An item as the Add/Edit dialog stores it: the identifier text is eight
  hexadecimal digits and the item is named by their value.\<close>

definition eight_digits :: "tree_item \<Rightarrow> bool" where
  "eight_digits x =
     (length (data_id_hex x) = 8 \<and> list_all (\<lambda>c. hex_digit c \<noteq> None) (data_id_hex x)
      \<and> id_of_hex (data_id_hex x) = Some (iid x))"

text \<open>An item whose identifier text, as read back from the tree, is accepted by
  \<open>bytearray.fromhex\<close>, and the bytes that are then written for it.\<close>

definition sendable :: "tree_item \<Rightarrow> bool" where
  "sendable child = (case id_request child of Inr b \<Rightarrow> True | Inl e \<Rightarrow> False)"

definition id_bytes :: "tree_item \<Rightarrow> byte list" where
  "id_bytes child = (case id_request child of Inr b \<Rightarrow> b | Inl e \<Rightarrow> [])"

text \<open>A list of \<open>k\<close> records with the identifiers 1 to \<open>k\<close>.\<close>

definition numbered_item :: "nat \<Rightarrow> tree_item" where
  "numbered_item n =
     \<lparr>iid = n,
      data_id_hex = bytes_hex [n div 16777216, n div 65536 mod 256, n div 256 mod 256, n mod 256],
      data_text = ''tag''\<rparr>"

definition numbered_store :: "nat \<Rightarrow> treeview" where
  "numbered_store k = map numbered_item [1..<Suc k]"

text \<open>A list of \<open>k\<close> records whose identifier texts \<open>ab0000..\<close> contain a letter, so
  that the tree hands them back as texts.\<close>

definition lettered_item :: "nat \<Rightarrow> tree_item" where
  "lettered_item n =
     \<lparr>iid = 2868903936 + n, data_id_hex = bytes_hex [171, 0, 0, n], data_text = ''tag''\<rparr>"

definition lettered_store :: "nat \<Rightarrow> treeview" where
  "lettered_store k = map lettered_item [0..<k]"

text \<open>The chunks of a list: the first 32 elements, then the chunks of the rest.\<close>

function chunks :: "'a list \<Rightarrow> 'a list list" where
  "chunks xs =
     (if xs = [] then [] else take PACKET_MAX_COUNT xs # chunks (drop PACKET_MAX_COUNT xs))"
  by pat_completeness auto
termination
  by (relation "measure length") (auto simp: PACKET_MAX_COUNT_def)

declare chunks.simps [simp del]

text \<open>What is written for one chunk, and the answers of a device that acknowledges the
  count and every chunk.\<close>

definition data_exchange :: "tree_item list \<Rightarrow> byte list list" where
  "data_exchange chunk = [0xCD, 2, 0, length chunk] # map id_bytes chunk"

definition acknowledgements :: "treeview \<Rightarrow> rx_event list" where
  "acknowledgements t =
     Rx [0xDC, 1, length t div 256, length t mod 256]
       # map (\<lambda>chunk. Rx [0xDC, 2, 0, length chunk]) (chunks t)"

text \<open>The Add dialogs that build the numbered list.\<close>

definition add_numbered :: "nat \<Rightarrow> user_action" where
  "add_numbered n = Add (data_id_hex (numbered_item n)) (data_text (numbered_item n))"

section \<open>Big-endian bytes\<close>

lemma div_mod_base:
  fixes a k r :: nat
  assumes "r < k"
  shows "(a * k + r) div k = a" and "(a * k + r) mod k = r"
  using assms by simp_all

lemma be_bytes:
  fixes m s h l n :: nat
  assumes "m < 256" and "s < 256" and "h < 256" and "l < 256"
    and n: "n = ((m * 256 + s) * 256 + h) * 256 + l"
  shows "n div 16777216 = m" and "n div 65536 mod 256 = s"
    and "n div 256 mod 256 = h" and "n mod 256 = l" and "n < 2 ^ 32"
proof -
  define n2 where "n2 = m * 256 + s"
  define n1 where "n1 = n2 * 256 + h"
  have n_eq: "n = n1 * 256 + l" by (simp add: n n1_def n2_def)
  have d1: "n div 256 = n1" unfolding n_eq using assms(4) by (rule div_mod_base(1))
  have d2: "n1 div 256 = n2" unfolding n1_def using assms(3) by (rule div_mod_base(1))
  have d3: "n2 div 256 = m" unfolding n2_def using assms(2) by (rule div_mod_base(1))
  have m2: "n2 mod 256 = s" unfolding n2_def using assms(2) by (rule div_mod_base(2))
  show "n mod 256 = l" unfolding n_eq using assms(4) by (rule div_mod_base(2))
  show "n div 256 mod 256 = h"
    unfolding d1 n1_def using assms(3) by (rule div_mod_base(2))
  have "n div 65536 = n div (256 * 256)" by simp
  also have "\<dots> = n div 256 div 256" by (simp only: div_mult2_eq)
  finally have d65536: "n div 65536 = n2" by (simp only: d1 d2)
  show "n div 65536 mod 256 = s" by (simp only: d65536 m2)
  have "n div 16777216 = n div (65536 * 256)" by simp
  also have "\<dots> = n div 65536 div 256" by (simp only: div_mult2_eq)
  finally show "n div 16777216 = m" by (simp only: d65536 d3)
  have "n2 \<le> 255 * 256 + 255" unfolding n2_def using assms(1,2) by simp
  then have "n1 \<le> (255 * 256 + 255) * 256 + 255" unfolding n1_def using assms(3) by simp
  then have "n \<le> ((255 * 256 + 255) * 256 + 255) * 256 + 255" unfolding n_eq using assms(4) by simp
  then show "n < 2 ^ 32" by simp
qed

lemma pack_bytes:
  assumes "m < 256" and "s < 256" and "h < 256" and "l < 256"
  shows "pack_BE_I (((m * 256 + s) * 256 + h) * 256 + l) = Inr [m, s, h, l]"
  unfolding pack_BE_I_def
  by (simp only: be_bytes[OF assms refl] if_True)

lemma pack_frame:
  assumes "m < 256" and "s < 256" and "p < 65536"
  shows "pack_BE_I ((m * 256 + s) * 65536 + p) = Inr [m, s, p div 256, p mod 256]"
proof -
  have h: "p div 256 < 256" using assms(3) by simp
  have l: "p mod 256 < 256" by simp
  have "(m * 256 + s) * 65536 + p
      = ((m * 256 + s) * 256 + p div 256) * 256 + p mod 256" by simp
  then show ?thesis by (simp only: pack_bytes[OF assms(1,2) h l])
qed

lemma command_split: "sub \<le> 3 \<Longrightarrow> command sub = (205 * 256 + sub) * 65536"
proof -
  assume "sub \<le> 3"
  then consider "sub = 0" | "sub = 1" | "sub = 2" | "sub = 3" by linarith
  then show ?thesis
    by cases (simp_all add: command_def COMMAND_PINGPONG_def COMMAND_WRITECOUNT_def
        COMMAND_WRITEDATA_def COMMAND_READLAST_def)
qed

section \<open>The frame codec\<close>

text \<open>
  C2. For every subcommand 0, 1, 2 or 3 and every parameter up to 65535, the request
  frame that the source packs (the command constant of the subcommand plus the
  parameter, as four big-endian bytes) decodes to the magic byte 0xCD, the same
  subcommand and the same parameter.
\<close>

theorem encode_decode_roundtrip:
  assumes "sub \<le> 3" and "param \<le> 65535"
  shows "\<exists>b. encode sub param = Inr b
           \<and> decode b = Some \<lparr>magic = 0xCD, subcommand = sub, parameter = param\<rparr>"
proof -
  have "encode sub param = Inr [205, sub, param div 256, param mod 256]"
    unfolding encode_def command_split[OF assms(1)]
    using assms by (intro pack_frame) simp_all
  moreover have "decode [205, sub, param div 256, param mod 256]
      = Some \<lparr>magic = 0xCD, subcommand = sub, parameter = param\<rparr>"
    by (simp add: decode_def)
  ultimately show ?thesis by blast
qed

theorem encode_decode_roundtrip_witness:
  "(2::nat) \<le> 3 \<and> (40::nat) \<le> 65535 \<and>
   (\<exists>b. encode 2 40 = Inr b \<and> decode b = Some \<lparr>magic = 0xCD, subcommand = 2, parameter = 40\<rparr>)"
  using encode_decode_roundtrip[of 2 40] by simp

section \<open>Evaluation on literals\<close>

lemma char_of_digit [simp]:
  "char_of (48::nat) = CHR ''0''" "char_of (49::nat) = CHR ''1''" "char_of (50::nat) = CHR ''2''"
  "char_of (51::nat) = CHR ''3''" "char_of (52::nat) = CHR ''4''" "char_of (53::nat) = CHR ''5''"
  "char_of (54::nat) = CHR ''6''" "char_of (55::nat) = CHR ''7''" "char_of (56::nat) = CHR ''8''"
  "char_of (57::nat) = CHR ''9''" "char_of (97::nat) = CHR ''a''" "char_of (98::nat) = CHR ''b''"
  "char_of (99::nat) = CHR ''c''" "char_of (100::nat) = CHR ''d''" "char_of (101::nat) = CHR ''e''"
  "char_of (102::nat) = CHR ''f''"
  by code_simp+

lemma pack_constants:
  "pack_BE_I COMMAND_PINGPONG = Inr [205, 0, 0, 0]"
  "pack_BE_I ANSWER_PINGPONG = Inr [220, 0, 0, 0]"
  "pack_BE_I COMMAND_READLAST = Inr [205, 3, 0, 0]"
  "pack_BE_I ANSWER_READLAST = Inr [220, 3, 0, 0]"
  by (simp_all add: pack_BE_I_def COMMAND_PINGPONG_def ANSWER_PINGPONG_def
      COMMAND_READLAST_def ANSWER_READLAST_def)

lemma fromhex_zero: "fromhex ''00000000'' = Inr [0, 0, 0, 0]"
  by (simp add: fromhex_def Py_ISSPACE_def hex_digit_def code_def)

lemma hex_short: "zfill 8 (bytes_hex [0x12, 0x34]) = ''00001234''"
  by code_simp

lemmas text_eval =
  code_def hex_digit_def is_digit_def Py_ISSPACE_def py_isspace_def int_isspace_def rstrip_def
  int_strip_def py_int_def py_digits_def convert_stringval_def split_comma_def

lemma id_of_hex_examples:
  "id_of_hex ''00000001'' = Some 1"
  "id_of_hex ''00000002'' = Some 2"
  "id_of_hex ''0000abcd'' = Some 43981"
  "id_of_hex ''0000ABCD'' = Some 43981"
  by (simp_all add: id_of_hex_def fromhex_def hex_digit_def code_def Py_ISSPACE_def unpack_BE_I_def)

section \<open>The handshake\<close>

text \<open>
  C3, as amended. \<open>serial_protocol_check\<close> on an open port writes the request
  \<open>CD 00 00 00\<close>, reads once, and returns \<open>True\<close> exactly when the read returned
  \<open>DC 00 00 00\<close>. Any other outcome of the read (four other bytes, fewer bytes, an
  exception) gives the same result \<open>False\<close>: the source has no error kinds.
\<close>

theorem handshake_result:
  assumes "is_open p"
  shows "serial_protocol_check (Some p) =
           (fst (serial_read (serial_write p [0xCD, 0, 0, 0]) 4) = Inr [0xDC, 0, 0, 0],
            Some (snd (serial_read (serial_write p [0xCD, 0, 0, 0]) 4)))"
  using assms
  by (cases "serial_read (serial_write p [0xCD, 0, 0, 0]) 4")
     (auto simp: serial_protocol_check_def pack_constants split: sum.splits)

theorem handshake_result_witness:
  "is_open \<lparr>is_open = True, rx = [Rx [0xDC, 0, 0, 0]], tx = []\<rparr> \<and>
   serial_protocol_check (Some \<lparr>is_open = True, rx = [Rx [0xDC, 0, 0, 0]], tx = []\<rparr>) =
     (True, Some \<lparr>is_open = True, rx = [], tx = [[0xCD, 0, 0, 0]]\<rparr>)"
  using handshake_result[of "\<lparr>is_open = True, rx = [Rx [0xDC, 0, 0, 0]], tx = []\<rparr>"]
  by (simp add: serial_read_def serial_write_def)

text \<open>
  C3 as stated fails: a full answer that differs (\<open>DC 00 00 01\<close>) and a short answer
  (two bytes) end in the same result and the same port state, so the two failures
  cannot be told apart.
\<close>

theorem handshake_failures_alike:
  "serial_protocol_check (Some \<lparr>is_open = True, rx = [Rx [0xDC, 0, 0, 1]], tx = []\<rparr>) =
     (False, Some \<lparr>is_open = True, rx = [], tx = [[0xCD, 0, 0, 0]]\<rparr>) \<and>
   serial_protocol_check (Some \<lparr>is_open = True, rx = [Rx [0xDC, 0]], tx = []\<rparr>) =
     (False, Some \<lparr>is_open = True, rx = [], tx = [[0xCD, 0, 0, 0]]\<rparr>)"
  by (simp add: serial_protocol_check_def pack_constants serial_read_def serial_write_def)

section \<open>Reading the last identifier\<close>

text \<open>
  C6, as amended. When the read of the answer frame does not return \<open>DC 03 00 00\<close>
  (it is short, differs, or raises), \<open>read_last_id_handler\<close> returns the text it was
  given as default, with one request written and one read made; there is no error
  value. Nothing is stated here about a short second read.
\<close>

theorem read_last_frame_not_matched:
  assumes "is_open p"
    and "fst (serial_read (serial_write p [0xCD, 3, 0, 0]) 4) \<noteq> Inr [0xDC, 3, 0, 0]"
  shows "read_last_id_handler (Some p) dflt =
           (dflt, Some (snd (serial_read (serial_write p [0xCD, 3, 0, 0]) 4)))"
  using assms
  by (cases "serial_read (serial_write p [0xCD, 3, 0, 0]) 4")
     (auto simp: read_last_id_handler_def pack_constants split: sum.splits)

theorem read_last_frame_not_matched_witness:
  "is_open \<lparr>is_open = True, rx = [Rx [0xDC, 3]], tx = []\<rparr> \<and>
   fst (serial_read (serial_write \<lparr>is_open = True, rx = [Rx [0xDC, 3]], tx = []\<rparr> [0xCD, 3, 0, 0]) 4)
     \<noteq> Inr [0xDC, 3, 0, 0] \<and>
   read_last_id_handler (Some \<lparr>is_open = True, rx = [Rx [0xDC, 3]], tx = []\<rparr>) ''0000BEEF'' =
     (''0000BEEF'', Some \<lparr>is_open = True, rx = [], tx = [[0xCD, 3, 0, 0]]\<rparr>)"
  using read_last_frame_not_matched[of "\<lparr>is_open = True, rx = [Rx [0xDC, 3]], tx = []\<rparr>" "''0000BEEF''"]
  by (simp add: serial_read_def serial_write_def)

text \<open>
  C6 as stated fails: after a short answer frame the result is the default text, not
  an error, and after a short identifier read (two bytes \<open>12 34\<close>) the result is the
  identifier text \<open>00001234\<close>.
\<close>

theorem read_last_short_reads:
  "read_last_id_handler (Some \<lparr>is_open = True, rx = [Rx [0xDC, 3]], tx = []\<rparr>) ''0000BEEF'' =
     (''0000BEEF'', Some \<lparr>is_open = True, rx = [], tx = [[0xCD, 3, 0, 0]]\<rparr>) \<and>
   read_last_id_handler (Some \<lparr>is_open = True, rx = [Rx [0xDC, 3, 0, 0], Rx [0x12, 0x34]], tx = []\<rparr>)
       ''0000BEEF'' =
     (''00001234'', Some \<lparr>is_open = True, rx = [], tx = [[0xCD, 3, 0, 0]]\<rparr>)"
  by (simp add: read_last_id_handler_def pack_constants serial_read_def serial_write_def
      hex_short)

section \<open>The record list\<close>

subsection \<open>The tree and the confirmation of a dialog\<close>

lemma unpack_cases:
  "unpack_BE_I b = Inr v \<Longrightarrow> \<exists>n. v = PyTuple [n]"
  by (auto simp: unpack_BE_I_def split: list.splits)

lemma id_of_hex_Some:
  "id_of_hex hex = Some n \<longleftrightarrow> (\<exists>b. fromhex hex = Inr b \<and> unpack_BE_I b = Inr (PyTuple [n]))"
  by (auto simp: id_of_hex_def split: sum.splits pyval.splits list.splits dest: unpack_cases)

lemma id_of_hex_None:
  "id_of_hex hex = None \<longleftrightarrow> (\<forall>b. fromhex hex = Inr b \<longrightarrow> (\<exists>e. unpack_BE_I b = Inl e))"
  by (auto simp: id_of_hex_def split: sum.splits pyval.splits list.splits dest: unpack_cases)

lemma position_None: "position t i = None \<longleftrightarrow> \<not> tk_exists t i"
  by (induction t) (auto simp: tk_exists_def)

lemma position_Some: "position t i = Some k \<Longrightarrow> k < length t \<and> iid (t ! k) = i"
  by (induction t arbitrary: k) (auto split: if_splits)

lemma filter_position:
  "distinct (map iid t) \<Longrightarrow> position t i = Some k \<Longrightarrow>
   filter (\<lambda>x. iid x \<noteq> i) t = take k t @ drop (Suc k) t"
proof (induction t arbitrary: k)
  case Nil
  then show ?case by simp
next
  case (Cons x xs)
  show ?case
  proof (cases "iid x = i")
    case True
    with Cons.prems have "k = 0" and "i \<notin> iid ` set xs" by auto
    then have "filter (\<lambda>x. iid x \<noteq> i) xs = xs" by (auto simp: filter_id_conv)
    with True \<open>k = 0\<close> show ?thesis by simp
  next
    case False
    with Cons.prems obtain j where j: "position xs i = Some j" "k = Suc j" by auto
    with Cons.IH[of j] Cons.prems(1) False show ?thesis by simp
  qed
qed

lemma insert_at_removed: "k < length t \<Longrightarrow> take k (take k t @ drop (Suc k) t) @ x # drop k (take k t @ drop (Suc k) t) = t[k := x]"
  by (simp add: upd_conv_take_nth_drop min_def)

lemma confirm_entry_unfold:
  "tree_confirm_entry item hex txt t =
     (if length hex \<noteq> 8 \<or> txt = [] then (False, t)
      else case id_of_hex hex of None \<Rightarrow> (False, t)
      | Some n \<Rightarrow>
          (case item of
             None \<Rightarrow>
               if tk_exists t n then (False, t)
               else (True, t @ [\<lparr>iid = n, data_id_hex = hex, data_text = txt\<rparr>])
           | Some i \<Rightarrow>
               if \<not> tk_exists t i then (False, t)
               else if tk_exists (filter (\<lambda>x. iid x \<noteq> i) t) n
               then (False, filter (\<lambda>x. iid x \<noteq> i) t)
               else (True, take (the (position t i)) (filter (\<lambda>x. iid x \<noteq> i) t)
                             @ \<lparr>iid = n, data_id_hex = hex, data_text = txt\<rparr>
                             # drop (the (position t i)) (filter (\<lambda>x. iid x \<noteq> i) t))))"
proof (cases "id_of_hex hex")
  case None
  have "fromhex hex = Inr b \<Longrightarrow> \<exists>e. unpack_BE_I b = Inl e" for b
    using None by (simp add: id_of_hex_None)
  then show ?thesis
    by (fastforce simp: tree_confirm_entry_def None split: sum.splits)
next
  case (Some n)
  then obtain b where b: "fromhex hex = Inr b" "unpack_BE_I b = Inr (PyTuple [n])"
    by (auto simp: id_of_hex_Some)
  show ?thesis
  proof (cases "position t (the item)")
    case None
    then show ?thesis using Some b
      by (auto simp: tree_confirm_entry_def tk_insert_def tk_index_of_def tk_delete_def
                position_None split: option.splits)
  next
    case (Some k)
    then have "tk_exists t (the item)" using position_None[of t "the item"] by simp
    then show ?thesis using Some \<open>id_of_hex hex = Some n\<close> b
      by (auto simp: tree_confirm_entry_def tk_insert_def tk_index_of_def tk_delete_def
                position_None split: option.splits)
  qed
qed

lemma insert_data_item_unfold:
  "insert_data_item line t =
     (case split_comma line of
        [p0, p1] \<Rightarrow>
          (case id_of_hex (rstrip p0) of None \<Rightarrow> t
           | Some n \<Rightarrow>
               if tk_exists t n then t
               else t @ [\<lparr>iid = n, data_id_hex = rstrip p0, data_text = rstrip p1\<rparr>])
      | _ \<Rightarrow> t)"
proof (cases "split_comma line")
  case Nil
  then show ?thesis by (simp add: insert_data_item_def)
next
  case (Cons p0 ps)
  show ?thesis
  proof (cases "id_of_hex (rstrip p0)")
    case None
    have "fromhex (rstrip p0) = Inr b \<Longrightarrow> \<exists>e. unpack_BE_I b = Inl e" for b
      using None by (simp add: id_of_hex_None)
    then show ?thesis
      by (fastforce simp: insert_data_item_def Cons None Let_def split: sum.splits list.splits)
  next
    case (Some n)
    then obtain b where "fromhex (rstrip p0) = Inr b" "unpack_BE_I b = Inr (PyTuple [n])"
      by (auto simp: id_of_hex_Some)
    then show ?thesis
      by (auto simp: insert_data_item_def Cons Some Let_def tk_insert_def split: list.splits)
  qed
qed

lemma distinct_insert_at:
  assumes "distinct (map iid t)" and "\<not> tk_exists t n"
  shows "distinct (map iid (take k t @ \<lparr>iid = n, data_id_hex = h, data_text = x\<rparr> # drop k t))"
proof -
  have "map iid (take k t) @ map iid (drop k t) = map iid t"
    by (simp flip: map_append)
  then have "distinct (map iid (take k t) @ map iid (drop k t))"
    using assms(1) by (simp only:)
  then have d: "distinct (map iid (take k t))" "distinct (map iid (drop k t))"
    "iid ` set (take k t) \<inter> iid ` set (drop k t) = {}"
    by (simp_all only: distinct_append set_map)
  have "n \<notin> iid ` set (take k t)" "n \<notin> iid ` set (drop k t)"
    using assms(2) by (auto simp: tk_exists_def dest: in_set_takeD in_set_dropD)
  with d show ?thesis by auto
qed

lemma distinct_filter_iid: "distinct (map iid t) \<Longrightarrow> distinct (map iid (filter P t))"
  by (simp add: distinct_map_filter)

lemma confirm_entry_distinct:
  assumes "distinct (map iid t)"
  shows "distinct (map iid (snd (tree_confirm_entry item hex txt t)))"
  using assms distinct_insert_at[OF distinct_filter_iid[OF assms]]
  by (auto simp: confirm_entry_unfold tk_exists_def distinct_filter_iid
           split: option.splits)

lemma insert_data_item_distinct:
  "distinct (map iid t) \<Longrightarrow> distinct (map iid (insert_data_item line t))"
  by (auto simp: insert_data_item_unfold tk_exists_def split: list.splits option.splits)

lemma load_distinct:
  "distinct (map iid t) \<Longrightarrow> distinct (map iid (load_data_from_file file t))"
proof -
  have "distinct (map iid t) \<Longrightarrow> distinct (map iid (fold insert_data_item ls t))" for ls
    by (induction ls arbitrary: t) (simp_all add: insert_data_item_distinct)
  then show "distinct (map iid t) \<Longrightarrow> ?thesis"
    by (simp add: load_data_from_file_def split: option.splits)
qed

lemma data_delete_distinct:
  "distinct (map iid t) \<Longrightarrow> distinct (map iid (data_delete item t))"
  by (auto simp: data_delete_def tk_delete_def distinct_filter_iid split: option.splits)

lemma perform_distinct:
  "distinct (map iid t) \<Longrightarrow> distinct (map iid (perform a t))"
  by (cases a) (simp_all add: load_distinct confirm_entry_distinct data_delete_distinct)

lemma fold_perform_distinct:
  "distinct (map iid t) \<Longrightarrow> distinct (map iid (fold perform actions t))"
  by (induction actions arbitrary: t) (simp_all add: perform_distinct)

subsection \<open>The zero identifier\<close>

text \<open>An empty label is rejected, for the Add and for the Edit dialog, and the list is
  as it was.\<close>

lemma empty_label_rejected: "tree_confirm_entry item hex [] t = (False, t)"
  by (simp add: tree_confirm_entry_def)

text \<open>
  C5. The claim is that a zero identifier or an empty label is rejected. The second
  half holds. For the first, the source compares the tuple
  that \<open>struct.unpack\<close> returned with \<open>0\<close>, which is never equal, so the Add dialog
  with the identifier \<open>00000000\<close> and a non-empty label succeeds and the list gains a
  record with identifier 0.
\<close>

theorem zero_identifier_accepted:
  "tree_confirm_entry None ''00000000'' ''x'' [] =
     (True, [\<lparr>iid = 0, data_id_hex = ''00000000'', data_text = ''x''\<rparr>])"
  by (simp add: tree_confirm_entry_def fromhex_zero unpack_BE_I_def tk_insert_def tk_exists_def)

theorem zero_identifier_accepted_witness:
  "fst (tree_confirm_entry None ''00000000'' ''x'' []) \<and>
   map iid (snd (tree_confirm_entry None ''00000000'' ''x'' [])) = [0]"
  using zero_identifier_accepted by simp

subsection \<open>Editing an identifier into one that is taken\<close>

text \<open>
  C10. When an existing record \<open>i\<close> is edited and the new identifier text denotes
  the identifier \<open>n\<close> of another existing record, \<open>tree_confirm_entry\<close> returns
  \<open>False\<close> and the list it leaves is the old one without record \<open>i\<close>: the item was
  deleted before the insertion failed.
\<close>

theorem edit_to_taken_identifier:
  assumes "tk_exists t i" and "length hex = 8" and "txt \<noteq> []"
    and "id_of_hex hex = Some n" and "n \<noteq> i" and "tk_exists t n"
  shows "tree_confirm_entry (Some i) hex txt t = (False, filter (\<lambda>x. iid x \<noteq> i) t)
         \<and> \<not> tk_exists (snd (tree_confirm_entry (Some i) hex txt t)) i"
proof -
  have "tk_exists (filter (\<lambda>x. iid x \<noteq> i) t) n"
    using assms(5,6) by (auto simp: tk_exists_def)
  then have "tree_confirm_entry (Some i) hex txt t = (False, filter (\<lambda>x. iid x \<noteq> i) t)"
    using assms by (simp add: confirm_entry_unfold)
  then show ?thesis by (auto simp: tk_exists_def)
qed

theorem edit_to_taken_identifier_witness:
  "tk_exists [\<lparr>iid = 1, data_id_hex = ''00000001'', data_text = ''front door''\<rparr>,
              \<lparr>iid = 2, data_id_hex = ''00000002'', data_text = ''garage''\<rparr>] 1 \<and>
   id_of_hex ''00000002'' = Some 2 \<and>
   tree_confirm_entry (Some 1) ''00000002'' ''front door''
     [\<lparr>iid = 1, data_id_hex = ''00000001'', data_text = ''front door''\<rparr>,
      \<lparr>iid = 2, data_id_hex = ''00000002'', data_text = ''garage''\<rparr>] =
     (False, [\<lparr>iid = 2, data_id_hex = ''00000002'', data_text = ''garage''\<rparr>])"
  using edit_to_taken_identifier[of
      "[\<lparr>iid = 1, data_id_hex = ''00000001'', data_text = ''front door''\<rparr>,
        \<lparr>iid = 2, data_id_hex = ''00000002'', data_text = ''garage''\<rparr>]"
      1 "''00000002''" "''front door''" 2]
  by (simp add: tk_exists_def id_of_hex_examples)

subsection \<open>Unique identifiers\<close>

text \<open>
  C8. No two records share an identifier after any sequence of load, add, edit and
  delete, from the empty list of the start or from any list without a shared
  identifier; adding a record whose identifier exists returns \<open>False\<close> and leaves the list
  as it was; an edit that keeps the identifier of the record puts the new values at the
  position the record had.
\<close>

theorem identifiers_unique:
  "distinct (map iid (fold perform actions []))
   \<and> (distinct (map iid t) \<longrightarrow> distinct (map iid (fold perform actions t)))
   \<and> (id_of_hex hex = Some n \<and> tk_exists t n \<longrightarrow> tree_confirm_entry None hex txt t = (False, t))
   \<and> (distinct (map iid t) \<and> position t i = Some k \<and> length hex = 8 \<and> txt \<noteq> []
        \<and> id_of_hex hex = Some i
      \<longrightarrow> tree_confirm_entry (Some i) hex txt t =
            (True, t[k := \<lparr>iid = i, data_id_hex = hex, data_text = txt\<rparr>]))"
proof (intro conjI impI)
  show "distinct (map iid (fold perform actions []))" by (rule fold_perform_distinct) simp
next
  assume "distinct (map iid t)"
  then show "distinct (map iid (fold perform actions t))" by (rule fold_perform_distinct)
next
  assume "id_of_hex hex = Some n \<and> tk_exists t n"
  then show "tree_confirm_entry None hex txt t = (False, t)"
    by (simp add: confirm_entry_unfold)
next
  assume a: "distinct (map iid t) \<and> position t i = Some k \<and> length hex = 8 \<and> txt \<noteq> []
        \<and> id_of_hex hex = Some i"
  then have k: "k < length t" and ex: "tk_exists t i"
    using position_Some[of t i k] position_None[of t i] by auto
  have f: "filter (\<lambda>x. iid x \<noteq> i) t = take k t @ drop (Suc k) t"
    using a by (simp add: filter_position)
  have "\<not> tk_exists (filter (\<lambda>x. iid x \<noteq> i) t) i" by (auto simp: tk_exists_def)
  then have "tree_confirm_entry (Some i) hex txt t =
      (True, take k (filter (\<lambda>x. iid x \<noteq> i) t) @ \<lparr>iid = i, data_id_hex = hex, data_text = txt\<rparr>
               # drop k (filter (\<lambda>x. iid x \<noteq> i) t))"
    using a ex by (simp add: confirm_entry_unfold)
  then show "tree_confirm_entry (Some i) hex txt t =
      (True, t[k := \<lparr>iid = i, data_id_hex = hex, data_text = txt\<rparr>])"
    using insert_at_removed[OF k] by (simp only: f)
qed

theorem identifiers_unique_witness:
  "distinct (map iid (fold perform
      [Load (Some ''0000abcd,x''), Add ''00000002'' ''again'', Edit 1 ''00000002'' ''moved'', Delete 2]
      [])) \<and>
   distinct (map iid [\<lparr>iid = 1, data_id_hex = ''00000001'', data_text = ''front door''\<rparr>,
                      \<lparr>iid = 2, data_id_hex = ''00000002'', data_text = ''garage''\<rparr>]) \<and>
   distinct (map iid (fold perform
      [Load (Some ''0000abcd,x''), Add ''00000002'' ''again'', Edit 1 ''00000002'' ''moved'', Delete 2]
      [\<lparr>iid = 1, data_id_hex = ''00000001'', data_text = ''front door''\<rparr>,
       \<lparr>iid = 2, data_id_hex = ''00000002'', data_text = ''garage''\<rparr>])) \<and>
   id_of_hex ''00000002'' = Some 2 \<and>
   tk_exists [\<lparr>iid = 1, data_id_hex = ''00000001'', data_text = ''front door''\<rparr>,
              \<lparr>iid = 2, data_id_hex = ''00000002'', data_text = ''garage''\<rparr>] 2 \<and>
   tree_confirm_entry None ''00000002'' ''shed''
     [\<lparr>iid = 1, data_id_hex = ''00000001'', data_text = ''front door''\<rparr>,
      \<lparr>iid = 2, data_id_hex = ''00000002'', data_text = ''garage''\<rparr>] =
     (False, [\<lparr>iid = 1, data_id_hex = ''00000001'', data_text = ''front door''\<rparr>,
              \<lparr>iid = 2, data_id_hex = ''00000002'', data_text = ''garage''\<rparr>]) \<and>
   position [\<lparr>iid = 1, data_id_hex = ''00000001'', data_text = ''front door''\<rparr>,
             \<lparr>iid = 2, data_id_hex = ''00000002'', data_text = ''garage''\<rparr>] 2 = Some 1 \<and>
   tree_confirm_entry (Some 2) ''00000002'' ''shed''
     [\<lparr>iid = 1, data_id_hex = ''00000001'', data_text = ''front door''\<rparr>,
      \<lparr>iid = 2, data_id_hex = ''00000002'', data_text = ''garage''\<rparr>] =
     (True, [\<lparr>iid = 1, data_id_hex = ''00000001'', data_text = ''front door''\<rparr>,
             \<lparr>iid = 2, data_id_hex = ''00000002'', data_text = ''shed''\<rparr>])"
  using identifiers_unique[of
      "[Load (Some ''0000abcd,x''), Add ''00000002'' ''again'',
        Edit 1 ''00000002'' ''moved'', Delete 2]"
      "[\<lparr>iid = 1, data_id_hex = ''00000001'', data_text = ''front door''\<rparr>,
        \<lparr>iid = 2, data_id_hex = ''00000002'', data_text = ''garage''\<rparr>]"
      "''00000002''" 2 "''shed''" 2 1]
  by (simp add: tk_exists_def id_of_hex_examples)

section \<open>Saving and loading\<close>

lemma hex_digit_chars:
  assumes "hex_digit c \<noteq> None"
  shows "c \<noteq> CHR '',''" "\<not> py_isspace c" "\<not> Py_ISSPACE c" "c \<noteq> CHR 0x0A" "c \<noteq> CHR 0x0D"
    "c \<noteq> CHR ''+''" "c \<noteq> CHR ''-''" "c \<noteq> CHR ''_''" "\<not> int_isspace c"
  using assms
  by (auto simp: hex_digit_def py_isspace_def Py_ISSPACE_def int_isspace_def code_def
           split: if_splits)

lemma is_digit_char: "is_digit c \<Longrightarrow> char_of (48 + (code c - 48)) = c"
  by (simp add: is_digit_def code_def)

lemma is_digit_val: "is_digit c \<Longrightarrow> code c - 48 < 10"
  by (auto simp: is_digit_def)

lemma dec_val_snoc: "dec_val (s @ [c]) = dec_val s * 10 + (code c - 48)"
  by (simp add: dec_val_def)

lemma py_str_nat_small: "n < 10 \<Longrightarrow> py_str_nat n = [char_of (48 + n)]"
  by (simp add: py_str_nat.simps)

lemma py_str_nat_step: "0 < v \<Longrightarrow> d < 10 \<Longrightarrow> py_str_nat (v * 10 + d) = py_str_nat v @ [char_of (48 + d)]"
  by (subst py_str_nat.simps) simp

lemma py_str_nat_nonempty: "py_str_nat n \<noteq> []"
  by (subst py_str_nat.simps) simp

lemma digits_render:
  assumes "\<forall>c\<in>set s. is_digit c" and "s \<noteq> []"
  shows "replicate (length s - length (py_str_nat (dec_val s))) (CHR ''0'') @ py_str_nat (dec_val s) = s
         \<and> length (py_str_nat (dec_val s)) \<le> length s"
  using assms
proof (induction s rule: rev_induct)
  case Nil
  then show ?case by simp
next
  case (snoc c s)
  have c: "is_digit c" using snoc.prems by simp
  note d = is_digit_val[OF c] is_digit_char[OF c]
  show ?case
  proof (cases "s = []")
    case True
    then show ?thesis using d by (simp add: dec_val_def py_str_nat_small)
  next
    case False
    with snoc have IH: "replicate (length s - length (py_str_nat (dec_val s))) (CHR ''0'') @ py_str_nat (dec_val s) = s"
      and len: "length (py_str_nat (dec_val s)) \<le> length s" by simp_all
    show ?thesis
    proof (cases "dec_val s = 0")
      case True
      have "py_str_nat 0 = ''0''" by (simp add: py_str_nat_small)
      with IH True have "s = replicate (length s - 1) (CHR ''0'') @ [CHR ''0'']" by simp
      also have "\<dots> = replicate (Suc (length s - 1)) (CHR ''0'')"
        by (simp only: replicate_append_same replicate_Suc)
      also have "Suc (length s - 1) = length s" using False by simp
      finally have "replicate (length s) (CHR ''0'') = s" by (rule sym)
      then show ?thesis using True d by (simp add: dec_val_snoc py_str_nat_small)
    next
      case False
      then have "py_str_nat (dec_val s * 10 + (code c - 48)) = py_str_nat (dec_val s) @ [c]"
        using d by (simp add: py_str_nat_step)
      then show ?thesis using IH len by (simp add: dec_val_snoc Suc_diff_le)
    qed
  qed
qed

lemma digits_from_hex:
  assumes "\<forall>c\<in>set s. hex_digit c \<noteq> None"
  shows "digits_from acc s =
           (if \<forall>c\<in>set s. is_digit c then Some (foldl (\<lambda>a c. a * 10 + (code c - 48)) acc s) else None)"
  using assms
  by (induction acc s rule: digits_from.induct) (auto simp: hex_digit_chars)

lemma py_digits_hex:
  assumes "\<forall>c\<in>set s. hex_digit c \<noteq> None" and "s \<noteq> []"
  shows "py_digits s = (if \<forall>c\<in>set s. is_digit c then Some (dec_val s) else None)"
proof -
  obtain c cs where s: "s = c # cs" using assms(2) by (cases s) auto
  then have "\<forall>c\<in>set cs. hex_digit c \<noteq> None" using assms(1) by simp
  from digits_from_hex[OF this] show ?thesis
    by (simp add: py_digits_def s dec_val_def)
qed

lemma dropWhile_hd: "s = [] \<or> \<not> P (hd s) \<Longrightarrow> dropWhile P s = s"
  by (cases s) auto

lemma rstrip_id: "s = [] \<or> \<not> py_isspace (last s) \<Longrightarrow> rstrip s = s"
  unfolding rstrip_def by (subst dropWhile_hd) (auto simp: hd_rev)

lemma strip_hex:
  assumes "\<forall>c\<in>set s. hex_digit c \<noteq> None"
  shows "int_strip s = s" and "rstrip s = s"
proof -
  have "s = [] \<or> \<not> py_isspace (last s)"
    using assms hex_digit_chars(2) by (cases s rule: rev_cases) auto
  then show "rstrip s = s" by (rule rstrip_id)
  have "s = [] \<or> \<not> int_isspace (last s)"
    using assms hex_digit_chars(9) by (cases s rule: rev_cases) auto
  then have "rev (dropWhile int_isspace (rev s)) = s"
    by (subst dropWhile_hd) (auto simp: hd_rev)
  moreover have "s = [] \<or> \<not> int_isspace (hd s)"
    using assms hex_digit_chars(9) by (cases s) auto
  ultimately show "int_strip s = s" unfolding int_strip_def by (simp add: dropWhile_hd)
qed

lemma py_int_hex:
  assumes "\<forall>c\<in>set s. hex_digit c \<noteq> None" and "s \<noteq> []"
  shows "py_int s = (if \<forall>c\<in>set s. is_digit c then Some (int (dec_val s)) else None)"
proof -
  obtain c cs where s: "s = c # cs" using assms(2) by (cases s) auto
  have "c \<noteq> CHR ''-''" "c \<noteq> CHR ''+''" using assms(1) hex_digit_chars s by auto
  moreover have "int_strip (c # cs) = c # cs" using strip_hex(1)[OF assms(1)] s by simp
  ultimately have "py_int s = map_option int (py_digits s)"
    by (simp add: py_int_def s)
  then show ?thesis by (simp add: py_digits_hex[OF assms])
qed

lemma zfill_plain:
  assumes "s \<noteq> []" and "hd s \<noteq> CHR ''+''" and "hd s \<noteq> CHR ''-''"
  shows "zfill w s = replicate (w - length s) (CHR ''0'') @ s"
  using assms by (cases s) (auto simp: zfill_def)

lemma py_str_nat_hd: "is_digit (hd (py_str_nat n))"
proof (induction n rule: py_str_nat.induct)
  case (1 n)
  show ?case
  proof (cases "n < 10")
    case True
    then have "code (char_of (48 + n)) = 48 + n" by (simp add: code_def)
    then show ?thesis using True by (simp add: py_str_nat_small is_digit_def)
  next
    case False
    then show ?thesis using 1 py_str_nat_nonempty[of "n div 10"]
      by (subst py_str_nat.simps) simp
  qed
qed

lemma is_digit_not_sign: "is_digit c \<Longrightarrow> c \<noteq> CHR ''+'' \<and> c \<noteq> CHR ''-''"
  by (auto simp: is_digit_def code_def)

lemma saved_hex:
  assumes "\<forall>c\<in>set h. hex_digit c \<noteq> None" and "length h = 8"
  shows "zfill 8 (py_str (convert_stringval h)) = h"
proof -
  have ne: "h \<noteq> []" using assms(2) by auto
  show ?thesis
  proof (cases "\<forall>c\<in>set h. is_digit c")
    case True
    then have "py_int h = Some (int (dec_val h))"
      using py_int_hex[OF assms(1) ne] by auto
    then have "py_str (convert_stringval h) = py_str_nat (dec_val h)"
      by (simp add: convert_stringval_def py_str_int_def)
    moreover have "zfill 8 (py_str_nat (dec_val h)) =
        replicate (8 - length (py_str_nat (dec_val h))) (CHR ''0'') @ py_str_nat (dec_val h)"
      using py_str_nat_nonempty is_digit_not_sign[OF py_str_nat_hd] by (intro zfill_plain) auto
    ultimately show ?thesis using digits_render[OF True ne] assms(2) by simp
  next
    case False
    then have "py_int h = None"
      using py_int_hex[OF assms(1) ne] by auto
    then have "py_str (convert_stringval h) = h"
      by (simp add: convert_stringval_def)
    moreover have "hd h \<noteq> CHR ''+''" "hd h \<noteq> CHR ''-''"
      using assms(1) ne hex_digit_chars by (cases h; auto)+
    ultimately show ?thesis using assms(2) ne by (simp add: zfill_plain)
  qed
qed

lemma file_lines_line:
  assumes "CHR 0x0A \<notin> set body" and "CHR 0x0D \<notin> set body"
  shows "file_lines cur (body @ CHR 0x0D # CHR 0x0A # rest) = (cur @ body @ [CHR 0x0A]) # file_lines [] rest"
  using assms
proof (induction body arbitrary: cur)
  case Nil
  then show ?case by simp
next
  case (Cons b bs)
  then have b: "b \<noteq> CHR 0x0A" "b \<noteq> CHR 0x0D" by auto
  obtain d ds where r: "bs @ CHR 0x0D # CHR 0x0A # rest = d # ds"
    by (cases "bs @ CHR 0x0D # CHR 0x0A # rest") auto
  have "file_lines cur (b # d # ds) = file_lines (cur @ [b]) (d # ds)"
    using b by simp
  then show ?case using Cons.IH[of "cur @ [b]"] Cons.prems r by simp
qed

lemma split_comma_first:
  assumes "CHR '','' \<notin> set a"
  shows "split_comma (a @ CHR '','' # r) = [a, r]"
proof -
  have "dropWhile (\<lambda>c. c \<noteq> CHR '','') (a @ CHR '','' # r) = CHR '','' # r"
    using assms by (induction a) auto
  moreover have "takeWhile (\<lambda>c. c \<noteq> CHR '','') (a @ CHR '','' # r) = a"
    using assms by (induction a) auto
  ultimately show ?thesis by (simp add: split_comma_def)
qed

lemma rstrip_newline: "rstrip (s @ [CHR 0x0A]) = rstrip s"
  by (simp add: rstrip_def py_isspace_def code_def)

lemma file_lines_saved:
  assumes "\<forall>x\<in>set t. CHR 0x0A \<notin> set (body x) \<and> CHR 0x0D \<notin> set (body x)"
  shows "file_lines [] (concat (map (\<lambda>x. body x @ [CHR 0x0D, CHR 0x0A]) t)) = map (\<lambda>x. body x @ [CHR 0x0A]) t"
  using assms
proof (induction t)
  case Nil
  then show ?case by simp
next
  case (Cons x xs)
  then show ?case using file_lines_line[of "body x" "[]"] by simp
qed

lemma saved_line:
  assumes "eight_digits x" and "label_kept (data_text x)"
  shows "save_line x = (data_id_hex x @ CHR '','' # data_text x) @ [CHR 0x0D, CHR 0x0A]"
proof -
  have "\<forall>c\<in>set (data_id_hex x). hex_digit c \<noteq> None"
    using assms(1) by (simp add: eight_digits_def list_all_iff)
  then have "zfill 8 (py_str (convert_stringval (data_id_hex x))) = data_id_hex x"
    using assms(1) by (intro saved_hex) (simp_all add: eight_digits_def)
  then show ?thesis using assms(2) by (simp add: save_line_def item_values_def label_kept_def)
qed

lemma loaded_line:
  assumes "eight_digits x" and "label_kept (data_text x)" and "\<not> tk_exists acc (iid x)"
  shows "insert_data_item ((data_id_hex x @ CHR '','' # data_text x) @ [CHR 0x0A]) acc = acc @ [x]"
proof -
  have h: "\<forall>c\<in>set (data_id_hex x). hex_digit c \<noteq> None"
    using assms(1) by (simp add: eight_digits_def list_all_iff)
  then have "CHR '','' \<notin> set (data_id_hex x)" using hex_digit_chars(1) by blast
  then have "split_comma ((data_id_hex x @ CHR '','' # data_text x) @ [CHR 0x0A])
      = [data_id_hex x, data_text x @ [CHR 0x0A]]"
    using split_comma_first[of "data_id_hex x" "data_text x @ [CHR 0x0A]"] by simp
  moreover have "rstrip (data_id_hex x) = data_id_hex x" using strip_hex(2)[OF h] .
  moreover have "rstrip (data_text x @ [CHR 0x0A]) = data_text x"
    using assms(2) by (simp add: rstrip_newline label_kept_def)
  moreover have "id_of_hex (data_id_hex x) = Some (iid x)"
    using assms(1) by (simp add: eight_digits_def)
  ultimately show ?thesis using assms(3) by (simp add: insert_data_item_unfold)
qed

lemma load_saved_lines:
  assumes "distinct (map iid (acc @ t))"
    and "\<forall>x\<in>set t. eight_digits x \<and> label_kept (data_text x)"
  shows "fold insert_data_item (map (\<lambda>x. (data_id_hex x @ CHR '','' # data_text x) @ [CHR 0x0A]) t) acc
           = acc @ t"
  using assms
proof (induction t arbitrary: acc)
  case Nil
  then show ?case by simp
next
  case (Cons x xs)
  have "\<not> tk_exists acc (iid x)" using Cons.prems(1) by (auto simp: tk_exists_def)
  then have "insert_data_item ((data_id_hex x @ CHR '','' # data_text x) @ [CHR 0x0A]) acc = acc @ [x]"
    using Cons.prems(2) by (intro loaded_line) simp_all
  moreover have "distinct (map iid ((acc @ [x]) @ xs))" using Cons.prems(1) by simp
  ultimately show ?case using Cons.IH[of "acc @ [x]"] Cons.prems(2) by simp
qed

lemma label_kept_examples:
  "label_kept ''front door''" "label_kept ''garage, north''"
  by (simp_all add: label_kept_def text_eval)

lemma eight_digits_examples:
  "eight_digits \<lparr>iid = 43981, data_id_hex = ''0000abcd'', data_text = x\<rparr>"
  "eight_digits \<lparr>iid = 4660, data_id_hex = ''00001234'', data_text = y\<rparr>"
  by (simp_all add: eight_digits_def id_of_hex_def fromhex_def unpack_BE_I_def text_eval)

text \<open>
  C7, as amended. For a list of at most 65535 records with distinct identifiers, whose
  identifier texts are eight hexadecimal digits and whose labels are kept (no white
  space at the end, no line break, not changed by the tree's conversion of values),
  saving to \<open>data.txt\<close> and loading the file into an empty list gives the same list,
  hence the same pairs of identifier and label.
\<close>

theorem save_load_roundtrip:
  assumes "length t \<le> DEVICES_COUNT_MAX" and "distinct (map iid t)"
    and "\<forall>x\<in>set t. eight_digits x \<and> label_kept (data_text x)"
  shows "load_data_from_file (snd (tree_popup_menu_save_handler t True file)) [] = t"
proof -
  let ?body = "\<lambda>x. data_id_hex x @ CHR '','' # data_text x"
  have hex: "\<forall>c\<in>set (data_id_hex x). c \<noteq> CHR 0x0A \<and> c \<noteq> CHR 0x0D" if "x \<in> set t" for x
    using assms(3) that hex_digit_chars(4,5) by (auto simp: eight_digits_def list_all_iff)
  have nl: "\<forall>x\<in>set t. CHR 0x0A \<notin> set (?body x) \<and> CHR 0x0D \<notin> set (?body x)"
    using assms(3) hex by (auto simp: label_kept_def)
  have "map save_line t = map (\<lambda>x. ?body x @ [CHR 0x0D, CHR 0x0A]) t"
    using assms(3) by (intro map_cong refl saved_line) simp_all
  then have "file_lines [] (concat (map save_line t)) = map (\<lambda>x. ?body x @ [CHR 0x0A]) t"
    by (simp only: file_lines_saved[OF nl])
  moreover have "snd (tree_popup_menu_save_handler t True file) = Some (concat (map save_line t))"
    using assms(1) by (simp add: tree_popup_menu_save_handler_def)
  ultimately show ?thesis
    using load_saved_lines[of "[]" t] assms(2,3) by (simp add: load_data_from_file_def)
qed

theorem save_load_roundtrip_witness:
  "length [\<lparr>iid = 43981, data_id_hex = ''0000abcd'', data_text = ''front door''\<rparr>,
           \<lparr>iid = 4660, data_id_hex = ''00001234'', data_text = ''garage, north''\<rparr>] \<le> DEVICES_COUNT_MAX \<and>
   distinct (map iid [\<lparr>iid = 43981, data_id_hex = ''0000abcd'', data_text = ''front door''\<rparr>,
           \<lparr>iid = 4660, data_id_hex = ''00001234'', data_text = ''garage, north''\<rparr>]) \<and>
   eight_digits \<lparr>iid = 43981, data_id_hex = ''0000abcd'', data_text = ''front door''\<rparr> \<and>
   label_kept ''front door'' \<and>
   eight_digits \<lparr>iid = 4660, data_id_hex = ''00001234'', data_text = ''garage, north''\<rparr> \<and>
   label_kept ''garage, north'' \<and>
   load_data_from_file (snd (tree_popup_menu_save_handler
       [\<lparr>iid = 43981, data_id_hex = ''0000abcd'', data_text = ''front door''\<rparr>,
        \<lparr>iid = 4660, data_id_hex = ''00001234'', data_text = ''garage, north''\<rparr>] True None)) [] =
     [\<lparr>iid = 43981, data_id_hex = ''0000abcd'', data_text = ''front door''\<rparr>,
      \<lparr>iid = 4660, data_id_hex = ''00001234'', data_text = ''garage, north''\<rparr>]"
  using save_load_roundtrip[of
      "[\<lparr>iid = 43981, data_id_hex = ''0000abcd'', data_text = ''front door''\<rparr>,
        \<lparr>iid = 4660, data_id_hex = ''00001234'', data_text = ''garage, north''\<rparr>]" None]
  by (simp add: DEVICES_COUNT_MAX_def label_kept_examples eight_digits_examples)

text \<open>
  C7 as stated fails: the record with identifier \<open>0000abcd\<close> and label \<open>x\<close> followed
  by a space is accepted by the dialog; it is saved with the space, and the loader,
  which strips the end of the label, reads the label \<open>x\<close>.
\<close>

theorem label_changed_by_reload:
  "tree_confirm_entry None ''0000abcd'' ''x '' [] =
     (True, [\<lparr>iid = 43981, data_id_hex = ''0000abcd'', data_text = ''x ''\<rparr>]) \<and>
   tree_popup_menu_save_handler
       [\<lparr>iid = 43981, data_id_hex = ''0000abcd'', data_text = ''x ''\<rparr>] True None =
     (ShowInfo ''Saved 1 lines'', Some (''0000abcd,x '' @ [CHR 0x0D, CHR 0x0A])) \<and>
   load_data_from_file (Some (''0000abcd,x '' @ [CHR 0x0D, CHR 0x0A])) [] =
     [\<lparr>iid = 43981, data_id_hex = ''0000abcd'', data_text = ''x''\<rparr>]"
proof (intro conjI)
  show "tree_confirm_entry None ''0000abcd'' ''x '' [] =
     (True, [\<lparr>iid = 43981, data_id_hex = ''0000abcd'', data_text = ''x ''\<rparr>])"
    by (simp add: confirm_entry_unfold id_of_hex_examples tk_exists_def)
  have "save_line \<lparr>iid = 43981, data_id_hex = ''0000abcd'', data_text = ''x ''\<rparr>
      = ''0000abcd,x '' @ [CHR 0x0D, CHR 0x0A]"
    by (simp add: save_line_def item_values_def zfill_def text_eval)
  moreover have "py_str_nat 1 = ''1''" by (simp add: py_str_nat.simps)
  ultimately show "tree_popup_menu_save_handler
       [\<lparr>iid = 43981, data_id_hex = ''0000abcd'', data_text = ''x ''\<rparr>] True None =
     (ShowInfo ''Saved 1 lines'', Some (''0000abcd,x '' @ [CHR 0x0D, CHR 0x0A]))"
    by (simp add: tree_popup_menu_save_handler_def DEVICES_COUNT_MAX_def)
  show "load_data_from_file (Some (''0000abcd,x '' @ [CHR 0x0D, CHR 0x0A])) [] =
     [\<lparr>iid = 43981, data_id_hex = ''0000abcd'', data_text = ''x''\<rparr>]"
    by (simp add: load_data_from_file_def insert_data_item_unfold id_of_hex_examples
        tk_exists_def text_eval)
qed

section \<open>Writing the list to the device\<close>

subsection \<open>The loop, round by round\<close>

lemma slice_nth:
  assumes "i + n \<le> length xs"
  shows "map (\<lambda>j. xs ! (i + j)) [0..<n] = take n (drop i xs)"
  using assms by (intro nth_equalityI) simp_all

lemma write_ids_sendable:
  assumes "\<forall>c\<in>set cs. sendable c"
  shows "write_ids cs p = (None, p\<lparr>tx := tx p @ map id_bytes cs\<rparr>)"
  using assms
proof (induction cs arbitrary: p)
  case Nil
  then show ?case by simp
next
  case (Cons c cs)
  then obtain b where b: "id_request c = Inr b"
    by (cases "id_request c") (auto simp: sendable_def)
  then have "id_bytes c = b" by (simp add: id_bytes_def)
  then show ?case using Cons b by (simp add: serial_write_def)
qed

lemma pack_data_frames:
  assumes "cc < 65536"
  shows "pack_BE_I (COMMAND_WRITEDATA + cc) = Inr [205, 2, cc div 256, cc mod 256]"
    and "pack_BE_I (ANSWER_WRITEDATA + cc) = Inr [220, 2, cc div 256, cc mod 256]"
    and "pack_BE_I (COMMAND_WRITECOUNT + cc) = Inr [205, 1, cc div 256, cc mod 256]"
    and "pack_BE_I (ANSWER_WRITECOUNT + cc) = Inr [220, 1, cc div 256, cc mod 256]"
proof -
  have e: "COMMAND_WRITEDATA = (205 * 256 + 2) * 65536" "ANSWER_WRITEDATA = (220 * 256 + 2) * 65536"
    "COMMAND_WRITECOUNT = (205 * 256 + 1) * 65536" "ANSWER_WRITECOUNT = (220 * 256 + 1) * 65536"
    by (simp_all add: COMMAND_WRITEDATA_def ANSWER_WRITEDATA_def COMMAND_WRITECOUNT_def
        ANSWER_WRITECOUNT_def)
  show "pack_BE_I (COMMAND_WRITEDATA + cc) = Inr [205, 2, cc div 256, cc mod 256]"
    unfolding e(1) using assms by (intro pack_frame) simp_all
  show "pack_BE_I (ANSWER_WRITEDATA + cc) = Inr [220, 2, cc div 256, cc mod 256]"
    unfolding e(2) using assms by (intro pack_frame) simp_all
  show "pack_BE_I (COMMAND_WRITECOUNT + cc) = Inr [205, 1, cc div 256, cc mod 256]"
    unfolding e(3) using assms by (intro pack_frame) simp_all
  show "pack_BE_I (ANSWER_WRITECOUNT + cc) = Inr [220, 1, cc div 256, cc mod 256]"
    unfolding e(4) using assms by (intro pack_frame) simp_all
qed

lemma current_count_bounds:
  assumes "i < count"
  shows "0 < current_count_of count i" and "current_count_of count i \<le> 32"
    and "i + current_count_of count i \<le> count"
  using assms by (auto simp: current_count_of_def PACKET_MAX_COUNT_def)

lemma port_literal:
  "p\<lparr>tx := a\<rparr> = \<lparr>is_open = is_open p, rx = rx p, tx = a\<rparr>"
  "p\<lparr>rx := b\<rparr> = \<lparr>is_open = is_open p, rx = b, tx = tx p\<rparr>"
  by simp_all

text \<open>
  One round of the loop, for a list whose identifiers can all be written: the request
  frame and the identifiers of the chunk are written, one answer is read, and the loop
  goes on only when the answer is the expected frame.
\<close>

lemma write_loop_round:
  assumes "i < length children" and "\<forall>c\<in>set children. sendable c"
    and "rx p = ev # r"
  shows "write_loop children (length children) i p =
     (let cc = current_count_of (length children) i;
          p1 = \<lparr>is_open = is_open p, rx = r,
                tx = tx p @ [205, 2, cc div 256, cc mod 256]
                              # map id_bytes (take cc (drop i children))\<rparr>
      in case ev of
           RxFault m \<Rightarrow> ((False, m), p1)
         | Rx answer \<Rightarrow>
             if take 4 answer \<noteq> [220, 2, cc div 256, cc mod 256]
             then ((False, ''Unexpected answer''), p1)
             else write_loop children (length children) (i + cc) p1)"
proof -
  let ?cc = "current_count_of (length children) i"
  note cb = current_count_bounds[OF assms(1)]
  have lt: "?cc < 65536" using cb(2) by simp
  have sl: "map (\<lambda>j. children ! (i + j)) [0..<?cc] = take ?cc (drop i children)"
    using cb(3) by (rule slice_nth)
  have "\<forall>c\<in>set (take ?cc (drop i children)). sendable c"
    using assms(2) by (auto dest!: in_set_takeD in_set_dropD)
  note wi = write_ids_sendable[OF this]
  show ?thesis
    using assms(1,3)
    by (subst write_loop.simps)
       (simp add: pack_data_frames[OF lt] sl wi serial_write_def serial_read_def Let_def
             port_literal split: rx_event.splits)
qed

text \<open>
  A round that comes to an item whose identifier cannot be written at the start of its
  chunk: the request frame of the chunk is written, the exception ends the loop.
\<close>

lemma write_loop_unsendable:
  assumes "i < length t" and "id_request (t ! i) = Inl e"
  shows "write_loop t (length t) i p =
           ((False, exc_str e),
            \<lparr>is_open = is_open p, rx = rx p,
             tx = tx p @ [[205, 2, current_count_of (length t) i div 256,
                           current_count_of (length t) i mod 256]]\<rparr>)"
proof -
  let ?cc = "current_count_of (length t) i"
  note cb = current_count_bounds[OF assms(1)]
  have lt: "?cc < 65536" using cb(2) by simp
  have "take ?cc (drop i t) = t ! i # take (?cc - 1) (drop (Suc i) t)"
    using cb(1) assms(1) by (cases ?cc) (simp_all flip: Cons_nth_drop_Suc)
  then have sl: "map (\<lambda>j. t ! (i + j)) [0..<?cc] = t ! i # take (?cc - 1) (drop (Suc i) t)"
    using slice_nth[OF cb(3)] by simp
  show ?thesis
    using assms
    by (subst write_loop.simps)
       (simp add: pack_data_frames[OF lt] sl serial_write_def port_literal)
qed

lemma hex_digit_hex_char: "d < 16 \<Longrightarrow> hex_digit (hex_char d) = Some d"
  by (auto simp: hex_digit_def hex_char_def code_def)

lemma lettered_request:
  assumes "n < 256"
  shows "id_request (lettered_item n) = Inr [171, 0, 0, n]"
proof -
  let ?h = "bytes_hex [171, 0, 0, n]"
  have h: "?h = ''ab0000'' @ [hex_char (n div 16), hex_char (n mod 16)]"
    by (simp add: bytes_hex_def hex_char_def)
  have d: "n div 16 < 16" "n mod 16 < 16" using assms by simp_all
  note hd = hex_digit_hex_char[OF d(1)] hex_digit_hex_char[OF d(2)]
  have all: "\<forall>c\<in>set ?h. hex_digit c \<noteq> None"
    unfolding h using hd by (simp add: hex_digit_def code_def)
  have "\<not> (\<forall>c\<in>set ?h. is_digit c)" unfolding h by (simp add: is_digit_def code_def)
  then have "py_int ?h = None" using py_int_hex[OF all] by (simp add: h)
  then have "id_request (lettered_item n) = fromhex ?h"
    by (simp add: id_request_def item_values_def lettered_item_def convert_stringval_def)
  also have "\<dots> = Inr [171, 0, 0, n div 16 * 16 + n mod 16]"
    unfolding h using hd hex_digit_chars(3)[of "hex_char (n div 16)"]
    by (simp add: fromhex_def hex_digit_def Py_ISSPACE_def code_def)
  finally show ?thesis by simp
qed

lemma lettered_sendable:
  assumes "k \<le> 256"
  shows "list_all sendable (lettered_store k)"
    and "map id_bytes (lettered_store k) = map (\<lambda>n. [171, 0, 0, n]) [0..<k]"
  using assms lettered_request
  by (auto simp: lettered_store_def list_all_iff sendable_def id_bytes_def)

lemma length_lettered_store: "length (lettered_store k) = k"
  by (simp add: lettered_store_def)

lemma upload_announce:
  assumes "is_open p" and "length t \<le> 65535" and "rx p = Rx a # r"
    and "take 4 a = [220, 1, length t div 256, length t mod 256]"
  shows "tree_popup_menu_write_handler t (Some p) =
     (case write_loop t (length t) 0
             \<lparr>is_open = True, rx = r,
              tx = tx p @ [[205, 1, length t div 256, length t mod 256]]\<rparr> of
        ((result, result_txt), p') \<Rightarrow>
          (if \<not> result then ShowError (''Communication error: '' @ result_txt)
           else ShowInfo (''Written '' @ py_str_nat (length t) @ '' lines''), Some p'))"
proof -
  have lt: "length t < 65536" using assms(2) by simp
  show ?thesis
    using assms
    by (simp add: tree_popup_menu_write_handler_def DEVICES_COUNT_MAX_def write_all_def
        pack_data_frames[OF lt] serial_write_def serial_read_def port_literal)
qed

subsection \<open>The chunks of a complete upload\<close>

lemma chunks_Nil: "chunks [] = []"
  by (simp add: chunks.simps)

lemma chunks_step: "xs \<noteq> [] \<Longrightarrow> chunks xs = take 32 xs # chunks (drop 32 xs)"
  by (subst chunks.simps) (simp add: PACKET_MAX_COUNT_def)

text \<open>
  The chunks are the list cut into pieces, in order; each has between 1 and 32
  elements, and there are \<open>ceil(count / 32)\<close> of them.
\<close>

lemma concat_chunks: "concat (chunks xs) = xs"
proof (induction xs rule: chunks.induct)
  case (1 xs)
  then show ?case
    by (cases "xs = []") (simp_all add: chunks_Nil chunks_step PACKET_MAX_COUNT_def)
qed

lemma chunks_sizes: "c \<in> set (chunks xs) \<Longrightarrow> 0 < length c \<and> length c \<le> 32"
proof (induction xs rule: chunks.induct)
  case (1 xs)
  show ?case
  proof (cases "xs = []")
    case True
    with 1 show ?thesis by (simp add: chunks_Nil)
  next
    case False
    with 1 show ?thesis by (auto simp: chunks_step PACKET_MAX_COUNT_def)
  qed
qed

lemma length_chunks: "length (chunks xs) = (length xs + 31) div 32"
proof (induction xs rule: chunks.induct)
  case (1 xs)
  show ?case
  proof (cases "xs = []")
    case True
    then show ?thesis by (simp add: chunks_Nil)
  next
    case False
    then have "length (chunks xs) = Suc ((length xs - 32 + 31) div 32)"
      using 1 by (simp add: chunks_step PACKET_MAX_COUNT_def)
    moreover have "(length xs + 31) div 32 = Suc ((length xs - 32 + 31) div 32)"
    proof (cases "length xs \<le> 32")
      case True
      have "Suc 0 \<le> length xs" using False by (simp add: Suc_le_eq)
      then have "(length xs + 31) div 32 = 1"
        using True by (intro div_nat_eqI) arith+
      then show ?thesis using True by simp
    next
      case False
      then have "length xs + 31 = (length xs - 32 + 31) + 32" by simp
      then have "(length xs + 31) div 32 = ((length xs - 32 + 31) + 32) div 32" by simp
      then show ?thesis by (simp only: div_add_self2)
    qed
    ultimately show ?thesis by simp
  qed
qed

lemma write_loop_chunks:
  assumes "\<forall>c\<in>set t. sendable c" and "i \<le> length t"
    and "rx p = map (\<lambda>chunk. Rx [220, 2, 0, length chunk]) (chunks (drop i t)) @ later"
  shows "write_loop t (length t) i p =
           ((True, []),
            \<lparr>is_open = is_open p, rx = later,
             tx = tx p @ concat (map data_exchange (chunks (drop i t)))\<rparr>)"
  using assms(2,3)
proof (induction "length t - i" arbitrary: i p rule: less_induct)
  case less
  show ?case
  proof (cases "i < length t")
    case False
    then have "drop i t = []" by simp
    then show ?thesis using False less.prems
      by (subst write_loop.simps) (simp add: chunks_Nil)
  next
    case True
    let ?cc = "current_count_of (length t) i"
    let ?c = "take ?cc (drop i t)"
    have ne: "drop i t \<noteq> []" using True by simp
    have cc32: "?cc \<le> 32" using current_count_bounds(2)[OF True] .
    have len: "length ?c = ?cc" using current_count_bounds(3)[OF True] by simp
    have "take 32 (drop i t) = ?c" "drop 32 (drop i t) = drop (i + ?cc) t"
      by (cases "length t - i > 32";
          simp add: current_count_of_def PACKET_MAX_COUNT_def add.commute)+
    then have ch: "chunks (drop i t) = ?c # chunks (drop (i + ?cc) t)"
      using chunks_step[OF ne] by simp
    have dv: "?cc div 256 = 0" "?cc mod 256 = ?cc" using cc32 by simp_all
    let ?acks = "map (\<lambda>chunk. Rx [220, 2, 0, length chunk]) (chunks (drop (i + ?cc) t)) @ later"
    let ?p1 = "\<lparr>is_open = is_open p, rx = ?acks, tx = tx p @ [205, 2, 0, ?cc] # map id_bytes ?c\<rparr>"
    have rx: "rx p = Rx [220, 2, 0, ?cc] # ?acks"
      using less.prems(2) len unfolding ch by simp
    have step: "write_loop t (length t) i p = write_loop t (length t) (i + ?cc) ?p1"
      using write_loop_round[OF True assms(1) rx]
      by (simp add: Let_def dv)
    have "0 < ?cc" using current_count_bounds(1)[OF True] .
    then have "length t - (i + ?cc) < length t - i" using True by simp
    moreover have "i + ?cc \<le> length t" using current_count_bounds(3)[OF True] .
    ultimately have "write_loop t (length t) (i + ?cc) ?p1 =
        ((True, []),
         \<lparr>is_open = is_open ?p1, rx = later,
          tx = tx ?p1 @ concat (map data_exchange (chunks (drop (i + ?cc) t)))\<rparr>)"
      by (intro less.hyps) simp_all
    moreover have "min (length t - i) ?cc = ?cc"
      using current_count_bounds(3)[OF True] by simp
    ultimately show ?thesis
      unfolding step ch by (simp add: data_exchange_def)
  qed
qed

text \<open>
  When every identifier can be written and the device acknowledges the count and every
  chunk, the handler writes the count frame and then, chunk after chunk, the write-data
  frame with the size of the chunk followed by its identifiers; it reads exactly the
  acknowledgements and reports success.
\<close>

lemma upload_in_chunks:
  assumes "is_open p" and "length t \<le> DEVICES_COUNT_MAX" and "list_all sendable t"
    and "rx p = acknowledgements t @ later"
  shows "tree_popup_menu_write_handler t (Some p) =
           (ShowInfo (''Written '' @ py_str_nat (length t) @ '' lines''),
            Some \<lparr>is_open = True, rx = later,
                  tx = tx p @ [0xCD, 1, length t div 256, length t mod 256]
                         # concat (map data_exchange (chunks t))\<rparr>)"
proof -
  have s: "\<forall>c\<in>set t. sendable c" using assms(3) by (simp add: list_all_iff)
  have le: "length t \<le> 65535" using assms(2) by (simp add: DEVICES_COUNT_MAX_def)
  let ?acks = "map (\<lambda>chunk. Rx [220, 2, 0, length chunk]) (chunks t)"
  let ?p0 = "\<lparr>is_open = True, rx = ?acks @ later,
              tx = tx p @ [[205, 1, length t div 256, length t mod 256]]\<rparr>"
  have rx: "rx p = Rx [220, 1, length t div 256, length t mod 256] # (?acks @ later)"
    using assms(4) by (simp add: acknowledgements_def)
  have h0: "tree_popup_menu_write_handler t (Some p) =
     (case write_loop t (length t) 0 ?p0 of
        ((result, result_txt), p') \<Rightarrow>
          (if \<not> result then ShowError (''Communication error: '' @ result_txt)
           else ShowInfo (''Written '' @ py_str_nat (length t) @ '' lines''), Some p'))"
    using upload_announce[OF assms(1) le rx] by simp
  have "write_loop t (length t) 0 ?p0 =
      ((True, []), \<lparr>is_open = is_open ?p0, rx = later,
                    tx = tx ?p0 @ concat (map data_exchange (chunks (drop 0 t)))\<rparr>)"
    using s by (intro write_loop_chunks) simp_all
  then show ?thesis unfolding h0 by simp
qed

subsection \<open>An identifier of decimal digits\<close>

lemma py_str_nat_examples:
  "py_str_nat 1 = ''1''" "py_str_nat 3 = ''3''" "py_str_nat 123 = ''123''"
proof -
  show 1: "py_str_nat 1 = ''1''" and "py_str_nat 3 = ''3''"
    by (simp_all add: py_str_nat_small)
  have "py_str_nat 12 = ''12''"
    using py_str_nat_step[of 1 2] 1 by simp
  then show "py_str_nat 123 = ''123''"
    using py_str_nat_step[of 12 3] by simp
qed

lemma py_str_nat_Suc3: "py_str_nat (Suc (Suc (Suc 0))) = ''3''"
  using py_str_nat_examples(2) by (simp add: numeral_3_eq_3)

lemma digit_identifier_request:
  "id_request \<lparr>iid = 291, data_id_hex = ''00000123'', data_text = ''x''\<rparr> =
     Inl (ValueError ''non-hexadecimal number found in fromhex() arg at position 3'')"
  by (simp add: id_request_def item_values_def text_eval py_str_int_def py_str_nat_examples
      py_str_nat_Suc3 fromhex_def fromhex_error_def)

text \<open>
  C1. The claim is that every list of at most 65535 records is sent in chunks, a list
  of 40 records in two write-data exchanges of 32 and 8. The write handler passes
  \<open>str(values[0])\<close> to \<open>bytearray.fromhex\<close> without the \<open>zfill(8)\<close> that the save
  handler applies, and the tree hands the identifier text \<open>00000123\<close> back as the
  integer 123. Take the list of 40 records whose first record has this identifier (the
  Add dialog accepts it) and a device that acknowledges every frame: the handler writes
  the count frame and the request frame of the first chunk, \<open>fromhex('123')\<close> raises,
  and the upload ends with an error. No identifier is written, no answer to a chunk is
  read, and the second chunk is never sent.
\<close>

theorem upload_fails_on_digit_identifier:
  "tree_confirm_entry None ''00000123'' ''x'' [] =
     (True, [\<lparr>iid = 291, data_id_hex = ''00000123'', data_text = ''x''\<rparr>]) \<and>
   length (\<lparr>iid = 291, data_id_hex = ''00000123'', data_text = ''x''\<rparr> # lettered_store 39) = 40 \<and>
   tree_popup_menu_write_handler
     (\<lparr>iid = 291, data_id_hex = ''00000123'', data_text = ''x''\<rparr> # lettered_store 39)
     (Some \<lparr>is_open = True,
            rx = [Rx [0xDC, 1, 0, 40], Rx [0xDC, 2, 0, 32], Rx [0xDC, 2, 0, 8]], tx = []\<rparr>) =
     (ShowError ''Communication error: non-hexadecimal number found in fromhex() arg at position 3'',
      Some \<lparr>is_open = True, rx = [Rx [0xDC, 2, 0, 32], Rx [0xDC, 2, 0, 8]],
            tx = [[0xCD, 1, 0, 40], [0xCD, 2, 0, 32]]\<rparr>)"
proof (intro conjI)
  have "id_of_hex ''00000123'' = Some 291"
    by (simp add: id_of_hex_def fromhex_def hex_digit_def code_def Py_ISSPACE_def unpack_BE_I_def)
  then show "tree_confirm_entry None ''00000123'' ''x'' [] =
     (True, [\<lparr>iid = 291, data_id_hex = ''00000123'', data_text = ''x''\<rparr>])"
    by (simp add: confirm_entry_unfold tk_exists_def)
  let ?t = "\<lparr>iid = 291, data_id_hex = ''00000123'', data_text = ''x''\<rparr> # lettered_store 39"
  show len: "length ?t = 40" by (simp add: lettered_store_def)
  let ?p0 = "\<lparr>is_open = True, rx = [Rx [0xDC, 2, 0, 32], Rx [0xDC, 2, 0, 8]],
              tx = [] @ [[205, 1, 0, 40]]\<rparr>"
  have "write_loop ?t 40 0 ?p0 =
      ((False, ''non-hexadecimal number found in fromhex() arg at position 3''),
       \<lparr>is_open = True, rx = [Rx [0xDC, 2, 0, 32], Rx [0xDC, 2, 0, 8]],
        tx = [[0xCD, 1, 0, 40], [0xCD, 2, 0, 32]]\<rparr>)"
    using write_loop_unsendable[of 0 ?t
        "ValueError ''non-hexadecimal number found in fromhex() arg at position 3''" ?p0]
    by (simp add: length_lettered_store digit_identifier_request current_count_of_def
          PACKET_MAX_COUNT_def)
  then show "tree_popup_menu_write_handler ?t
     (Some \<lparr>is_open = True,
            rx = [Rx [0xDC, 1, 0, 40], Rx [0xDC, 2, 0, 32], Rx [0xDC, 2, 0, 8]], tx = []\<rparr>) =
     (ShowError ''Communication error: non-hexadecimal number found in fromhex() arg at position 3'',
      Some \<lparr>is_open = True, rx = [Rx [0xDC, 2, 0, 32], Rx [0xDC, 2, 0, 8]],
            tx = [[0xCD, 1, 0, 40], [0xCD, 2, 0, 32]]\<rparr>)"
    using upload_announce[of
        "\<lparr>is_open = True,
          rx = [Rx [0xDC, 1, 0, 40], Rx [0xDC, 2, 0, 32], Rx [0xDC, 2, 0, 8]], tx = []\<rparr>"
        ?t "[0xDC, 1, 0, 40]" "[Rx [0xDC, 2, 0, 32], Rx [0xDC, 2, 0, 8]]"]
    by (simp add: length_lettered_store)
qed

theorem upload_fails_on_digit_identifier_witness:
  "fst (tree_popup_menu_write_handler
     (\<lparr>iid = 291, data_id_hex = ''00000123'', data_text = ''x''\<rparr> # lettered_store 39)
     (Some \<lparr>is_open = True,
            rx = [Rx [0xDC, 1, 0, 40], Rx [0xDC, 2, 0, 32], Rx [0xDC, 2, 0, 8]], tx = []\<rparr>)) =
     ShowError ''Communication error: non-hexadecimal number found in fromhex() arg at position 3''"
  using upload_fails_on_digit_identifier by simp

subsection \<open>A wrong answer to the second chunk\<close>

lemma second_chunk_mismatch:
  assumes "is_open p" and "length t = 40" and "list_all sendable t"
    and "rx p = Rx [0xDC, 1, 0, 40] # Rx [0xDC, 2, 0, 32] # Rx [0xDC, 2, 0, 7] # later"
  shows "tree_popup_menu_write_handler t (Some p) =
     (ShowError ''Communication error: Unexpected answer'',
      Some \<lparr>is_open = True, rx = later,
            tx = tx p @ [[0xCD, 1, 0, 40]]
                   @ [0xCD, 2, 0, 32] # map id_bytes (take 32 t)
                   @ [0xCD, 2, 0, 8] # map id_bytes (drop 32 t)\<rparr>)"
proof -
  have s: "\<forall>c\<in>set t. sendable c" using assms(3) by (simp add: list_all_iff)
  have cc: "current_count_of 40 0 = 32" "current_count_of 40 32 = 8"
    by (simp_all add: current_count_of_def PACKET_MAX_COUNT_def)
  let ?p0 = "\<lparr>is_open = True, rx = Rx [0xDC, 2, 0, 32] # Rx [0xDC, 2, 0, 7] # later,
              tx = tx p @ [[205, 1, 0, 40]]\<rparr>"
  let ?p1 = "\<lparr>is_open = True, rx = Rx [0xDC, 2, 0, 7] # later,
              tx = tx p @ [[205, 1, 0, 40]] @ [205, 2, 0, 32] # map id_bytes (take 32 t)\<rparr>"
  let ?p2 = "\<lparr>is_open = True, rx = later,
              tx = tx p @ [[205, 1, 0, 40]] @ [205, 2, 0, 32] # map id_bytes (take 32 t)
                     @ [205, 2, 0, 8] # map id_bytes (drop 32 t)\<rparr>"
  have h0: "tree_popup_menu_write_handler t (Some p) =
     (case write_loop t 40 0 ?p0 of
        ((result, result_txt), p') \<Rightarrow>
          (if \<not> result then ShowError (''Communication error: '' @ result_txt)
           else ShowInfo (''Written '' @ py_str_nat (length t) @ '' lines''), Some p'))"
    using upload_announce[of p t "[0xDC, 1, 0, 40]"
        "Rx [0xDC, 2, 0, 32] # Rx [0xDC, 2, 0, 7] # later"] assms(1,2,4)
    by simp
  have r1: "write_loop t 40 0 ?p0 = write_loop t 40 32 ?p1"
    using write_loop_round[OF _ s, of 0 ?p0 "Rx [0xDC, 2, 0, 32]" "Rx [0xDC, 2, 0, 7] # later"]
      assms(2) by (simp add: cc)
  have r2: "write_loop t 40 32 ?p1 = ((False, ''Unexpected answer''), ?p2)"
    using write_loop_round[OF _ s, of 32 ?p1 "Rx [0xDC, 2, 0, 7]" later]
      assms(2) by (simp add: cc)
  show ?thesis
    unfolding h0 r1 r2 by simp
qed

text \<open>
  C4, as amended. Forty records whose identifiers can be written are uploaded, the
  count and the first chunk are acknowledged, and the answer to the second chunk carries
  the parameter 7 instead of 8. Then the handler has written the count frame, the chunk
  of 32 and the chunk of 8, in that order, and nothing else; it has read three answers
  and no more; and its result is the error message
  \<open>Communication error: Unexpected answer\<close>. The result holds no count of acknowledged
  records.
\<close>

theorem upload_second_chunk_mismatch:
  assumes "is_open p" and "length t = 40" and "list_all sendable t"
    and "rx p = Rx [0xDC, 1, 0, 40] # Rx [0xDC, 2, 0, 32] # Rx [0xDC, 2, 0, 7] # later"
  shows "tree_popup_menu_write_handler t (Some p) =
     (ShowError ''Communication error: Unexpected answer'',
      Some \<lparr>is_open = True, rx = later,
            tx = tx p @ [[0xCD, 1, 0, 40]]
                   @ [0xCD, 2, 0, 32] # map id_bytes (take 32 t)
                   @ [0xCD, 2, 0, 8] # map id_bytes (drop 32 t)\<rparr>)"
  using assms by (rule second_chunk_mismatch)

theorem upload_second_chunk_mismatch_witness:
  "is_open \<lparr>is_open = True,
            rx = [Rx [0xDC, 1, 0, 40], Rx [0xDC, 2, 0, 32], Rx [0xDC, 2, 0, 7], Rx [0xDC, 2, 0, 8]],
            tx = []\<rparr> \<and>
   length (lettered_store 40) = 40 \<and> list_all sendable (lettered_store 40) \<and>
   tree_popup_menu_write_handler (lettered_store 40)
     (Some \<lparr>is_open = True,
            rx = [Rx [0xDC, 1, 0, 40], Rx [0xDC, 2, 0, 32], Rx [0xDC, 2, 0, 7], Rx [0xDC, 2, 0, 8]],
            tx = []\<rparr>) =
     (ShowError ''Communication error: Unexpected answer'',
      Some \<lparr>is_open = True, rx = [Rx [0xDC, 2, 0, 8]],
            tx = [[0xCD, 1, 0, 40]]
                   @ [0xCD, 2, 0, 32] # map id_bytes (take 32 (lettered_store 40))
                   @ [0xCD, 2, 0, 8] # map id_bytes (drop 32 (lettered_store 40))\<rparr>)"
  using upload_second_chunk_mismatch[of
      "\<lparr>is_open = True,
        rx = [Rx [0xDC, 1, 0, 40], Rx [0xDC, 2, 0, 32], Rx [0xDC, 2, 0, 7], Rx [0xDC, 2, 0, 8]],
        tx = []\<rparr>" "lettered_store 40" "[Rx [0xDC, 2, 0, 8]]"]
    lettered_sendable(1)[of 40]
  by (simp add: lettered_store_def)

text \<open>
  C4 as stated fails: the failure report of the scenario is the message alone, and it
  is the same message when the answer to the first chunk is wrong and no record has been
  acknowledged, so no count of 32 is reported.
\<close>

theorem upload_failure_reports_no_count:
  "fst (tree_popup_menu_write_handler (lettered_store 40)
     (Some \<lparr>is_open = True,
            rx = [Rx [0xDC, 1, 0, 40], Rx [0xDC, 2, 0, 32], Rx [0xDC, 2, 0, 7]], tx = []\<rparr>))
     = ShowError ''Communication error: Unexpected answer'' \<and>
   fst (tree_popup_menu_write_handler (lettered_store 40)
     (Some \<lparr>is_open = True, rx = [Rx [0xDC, 1, 0, 40], Rx [0xDC, 2, 0, 31]], tx = []\<rparr>))
     = ShowError ''Communication error: Unexpected answer''"
proof
  have len: "length (lettered_store 40) = 40" by (simp add: lettered_store_def)
  note sd = lettered_sendable(1)[of 40, simplified]
  show "fst (tree_popup_menu_write_handler (lettered_store 40)
     (Some \<lparr>is_open = True,
            rx = [Rx [0xDC, 1, 0, 40], Rx [0xDC, 2, 0, 32], Rx [0xDC, 2, 0, 7]], tx = []\<rparr>))
     = ShowError ''Communication error: Unexpected answer''"
    using second_chunk_mismatch[OF _ len sd, of
        "\<lparr>is_open = True,
          rx = [Rx [0xDC, 1, 0, 40], Rx [0xDC, 2, 0, 32], Rx [0xDC, 2, 0, 7]], tx = []\<rparr>" "[]"]
    by simp
  have s: "\<forall>c\<in>set (lettered_store 40). sendable c" using sd by (simp add: list_all_iff)
  have cc: "current_count_of 40 0 = 32"
    by (simp add: current_count_of_def PACKET_MAX_COUNT_def)
  let ?p0 = "\<lparr>is_open = True, rx = [Rx [0xDC, 2, 0, 31]], tx = [] @ [[205, 1, 0, 40]]\<rparr>"
  have "fst (write_loop (lettered_store 40) 40 0 ?p0) = (False, ''Unexpected answer'')"
    using write_loop_round[OF _ s, of 0 ?p0 "Rx [0xDC, 2, 0, 31]" "[]"] len
    by (simp add: cc)
  then show "fst (tree_popup_menu_write_handler (lettered_store 40)
     (Some \<lparr>is_open = True, rx = [Rx [0xDC, 1, 0, 40], Rx [0xDC, 2, 0, 31]], tx = []\<rparr>))
     = ShowError ''Communication error: Unexpected answer''"
    using upload_announce[of
        "\<lparr>is_open = True, rx = [Rx [0xDC, 1, 0, 40], Rx [0xDC, 2, 0, 31]], tx = []\<rparr>"
        "lettered_store 40" "[0xDC, 1, 0, 40]" "[Rx [0xDC, 2, 0, 31]]"] len
    by (simp split: prod.splits)
qed

subsection \<open>The limit of 65535 records\<close>

lemma serial_read_tx: "tx (snd (serial_read p n)) = tx p"
  by (simp add: serial_read_def split: list.splits rx_event.splits)

lemma write_ids_tx: "\<exists>r. tx (snd (write_ids cs p)) = tx p @ r"
proof (induction cs arbitrary: p)
  case Nil
  then show ?case by simp
next
  case (Cons c cs)
  show ?case
  proof (cases "id_request c")
    case (Inl e)
    then show ?thesis by simp
  next
    case (Inr b)
    from Cons[of "serial_write p b"] obtain r
      where "tx (snd (write_ids cs (serial_write p b))) = tx p @ [b] @ r"
      by (auto simp: serial_write_def)
    then show ?thesis using Inr by simp
  qed
qed

lemma write_loop_tx: "\<exists>r. tx (snd (write_loop children count i p)) = tx p @ r"
proof (induction children count i p rule: write_loop.induct)
  case (1 children count i p)
  let ?cc = "current_count_of count i"
  show ?case
  proof (cases "i < count")
    case False
    then show ?thesis by (subst write_loop.simps) simp
  next
    case True
    show ?thesis
    proof (cases "pack_BE_I (COMMAND_WRITEDATA + ?cc)")
      case (Inl e)
      then show ?thesis using True by (subst write_loop.simps) simp
    next
      case (Inr request)
      obtain e p1 where w: "write_ids (map (\<lambda>j. children ! (i + j)) [0..<?cc]) (serial_write p request) = (e, p1)"
        by (cases "write_ids (map (\<lambda>j. children ! (i + j)) [0..<?cc]) (serial_write p request)")
      from write_ids_tx[of "map (\<lambda>j. children ! (i + j)) [0..<?cc]" "serial_write p request"]
      obtain r1 where "tx p1 = tx (serial_write p request) @ r1"
        unfolding w by auto
      then have p1: "tx p1 = tx p @ [request] @ r1"
        by (simp add: serial_write_def)
      show ?thesis
      proof (cases e)
        case (Some x)
        then show ?thesis using True Inr w p1 by (subst write_loop.simps) simp
      next
        case None
        show ?thesis
        proof (cases "pack_BE_I (ANSWER_WRITEDATA + ?cc)")
          case (Inl x)
          then show ?thesis using True Inr w p1 None by (subst write_loop.simps) simp
        next
          case expected: (Inr expected_answer)
          obtain res p2 where rd: "serial_read p1 4 = (res, p2)" by (cases "serial_read p1 4")
          then have p2: "tx p2 = tx p @ [request] @ r1" using serial_read_tx[of p1 4] p1 by simp
          show ?thesis
          proof (cases res)
            case (Inl x)
            then show ?thesis using True Inr w None expected rd p2
              by (subst write_loop.simps) simp
          next
            case answer: (Inr answer)
            show ?thesis
            proof (cases "answer \<noteq> expected_answer")
              case True
              then show ?thesis using \<open>i < count\<close> Inr w None expected rd p2 answer
                by (subst write_loop.simps) simp
            next
              case False
              from "1"[OF \<open>i < count\<close> Inr w[symmetric] None expected rd[symmetric] answer False]
              obtain r where "tx (snd (write_loop children count (i + ?cc) p2)) = tx p2 @ r" by blast
              then show ?thesis using \<open>i < count\<close> Inr w None expected rd p2 answer False
                by (subst write_loop.simps) simp
            qed
          qed
        qed
      qed
    qed
  qed
qed

lemma write_all_tx:
  assumes "count < 65536"
  shows "\<exists>r. tx (snd (write_all t count p)) = tx p @ [205, 1, count div 256, count mod 256] # r"
proof -
  let ?p0 = "serial_write p [205, 1, count div 256, count mod 256]"
  obtain res p1 where rd: "serial_read ?p0 4 = (res, p1)" by (cases "serial_read ?p0 4")
  then have p1: "tx p1 = tx p @ [[205, 1, count div 256, count mod 256]]"
    using serial_read_tx[of ?p0 4] by (simp add: serial_write_def)
  from write_loop_tx[of t count 0 p1] obtain r
    where "tx (snd (write_loop t count 0 p1)) = tx p1 @ r" by blast
  then show ?thesis using rd p1
    by (auto simp: write_all_def pack_data_frames[OF assms] split: sum.splits)
qed

lemma numbered_store_ids: "map iid (numbered_store k) = [1..<Suc k]"
  by (simp add: numbered_store_def numbered_item_def comp_def)

lemma fromhex_bytes_hex:
  assumes "\<forall>b\<in>set bs. b < 256"
  shows "fromhex_from pos (bytes_hex bs) = Inr bs"
  using assms
proof (induction bs arbitrary: pos)
  case Nil
  then show ?case by (simp add: bytes_hex_def)
next
  case (Cons b bs)
  have "b < 16 * 16" using Cons.prems by simp
  then have d: "b div 16 < 16" "b mod 16 < 16"
    by (simp_all add: less_mult_imp_div_less)
  note hd = hex_digit_hex_char[OF d(1)] hex_digit_hex_char[OF d(2)]
  have sp: "\<not> Py_ISSPACE (hex_char (b div 16))" using hd(1) hex_digit_chars(3) by simp
  have "bytes_hex (b # bs) = hex_char (b div 16) # hex_char (b mod 16) # bytes_hex bs"
    by (simp add: bytes_hex_def)
  moreover have "fromhex_from (pos + 2) (bytes_hex bs) = Inr bs" using Cons by simp
  ultimately show ?case using hd sp by simp
qed

lemma be_value:
  fixes n :: nat
  shows "((n div 16777216 * 256 + n div 65536 mod 256) * 256 + n div 256 mod 256) * 256 + n mod 256 = n"
proof -
  have a: "n div 16777216 = n div 65536 div 256"
  proof -
    have "n div 16777216 = n div (65536 * 256)" by simp
    then show ?thesis by (simp only: div_mult2_eq)
  qed
  have b: "n div 65536 = n div 256 div 256"
  proof -
    have "n div 65536 = n div (256 * 256)" by simp
    then show ?thesis by (simp only: div_mult2_eq)
  qed
  have "n div 16777216 * 256 + n div 65536 mod 256 = n div 65536"
    unfolding a by (rule div_mult_mod_eq)
  moreover have "n div 65536 * 256 + n div 256 mod 256 = n div 256"
    unfolding b by (rule div_mult_mod_eq)
  moreover have "n div 256 * 256 + n mod 256 = n" by (rule div_mult_mod_eq)
  ultimately show ?thesis by (simp only:)
qed

lemma numbered_item_text:
  assumes "n < 2 ^ 32"
  shows "id_of_hex (data_id_hex (numbered_item n)) = Some n"
    and "length (data_id_hex (numbered_item n)) = 8"
proof -
  let ?bs = "[n div 16777216, n div 65536 mod 256, n div 256 mod 256, n mod 256]"
  have "n < 256 * 16777216" using assms by simp
  then have "n div 16777216 < 256" by (rule less_mult_imp_div_less)
  then have "\<forall>b\<in>set ?bs. b < 256" by simp
  from fromhex_bytes_hex[OF this, of 0] have "fromhex (bytes_hex ?bs) = Inr ?bs"
    by (simp add: fromhex_def)
  then have "id_of_hex (data_id_hex (numbered_item n)) =
      Some (((n div 16777216 * 256 + n div 65536 mod 256) * 256 + n div 256 mod 256) * 256 + n mod 256)"
    by (simp add: id_of_hex_def numbered_item_def unpack_BE_I_def)
  then show "id_of_hex (data_id_hex (numbered_item n)) = Some n"
    by (simp only: be_value)
  show "length (data_id_hex (numbered_item n)) = 8"
    by (simp add: numbered_item_def bytes_hex_def)
qed

lemma numbered_store_Suc: "numbered_store (Suc k) = numbered_store k @ [numbered_item (Suc k)]"
  by (simp add: numbered_store_def)

text \<open>
  The numbered list of \<open>k\<close> records is what \<open>k\<close> Add dialogs build from the empty
  list.
\<close>

lemma numbered_store_reached:
  assumes "k < 2 ^ 32"
  shows "fold perform (map add_numbered [1..<Suc k]) [] = numbered_store k"
  using assms
proof (induction k)
  case 0
  then show ?case by (simp add: numbered_store_def)
next
  case (Suc k)
  then have IH: "fold perform (map add_numbered [1..<Suc k]) [] = numbered_store k" by simp
  have "\<not> tk_exists (numbered_store k) (Suc k)"
    by (simp add: tk_exists_def numbered_store_ids)
  moreover have "numbered_item (Suc k) =
      \<lparr>iid = Suc k, data_id_hex = data_id_hex (numbered_item (Suc k)),
       data_text = data_text (numbered_item (Suc k))\<rparr>"
    by (simp add: numbered_item_def)
  moreover have "data_text (numbered_item (Suc k)) \<noteq> []" by (simp add: numbered_item_def)
  ultimately have "perform (add_numbered (Suc k)) (numbered_store k) = numbered_store (Suc k)"
    using numbered_item_text[OF Suc.prems]
    by (simp add: add_numbered_def confirm_entry_unfold numbered_store_Suc)
  then show ?case using IH by simp
qed

text \<open>
  C9, as amended. The record list itself has no bound. The limit is checked where the
  count is used: with more than 65535 records the write handler and the save handler
  report \<open>Too much data\<close> and leave the port and the file as they were; with at most
  65535 records the first frame that the write handler sends is the write-count request
  whose 16-bit parameter is the number of records.
\<close>

theorem capacity_checked_at_use:
  assumes "is_open p"
  shows "(DEVICES_COUNT_MAX < length t \<longrightarrow>
            tree_popup_menu_write_handler t (Some p) = (ShowError ''Too much data'', Some p)
            \<and> tree_popup_menu_save_handler t writable file = (ShowError ''Too much data'', file))
       \<and> (length t \<le> DEVICES_COUNT_MAX \<longrightarrow>
            (\<exists>r. map_option tx (snd (tree_popup_menu_write_handler t (Some p)))
                   = Some (tx p @ [0xCD, 1, length t div 256, length t mod 256] # r)))"
proof (intro conjI impI)
  assume "DEVICES_COUNT_MAX < length t"
  then show "tree_popup_menu_write_handler t (Some p) = (ShowError ''Too much data'', Some p)"
    and "tree_popup_menu_save_handler t writable file = (ShowError ''Too much data'', file)"
    using assms by (simp_all add: tree_popup_menu_write_handler_def tree_popup_menu_save_handler_def)
next
  assume le: "length t \<le> DEVICES_COUNT_MAX"
  then have "length t < 65536" by (simp add: DEVICES_COUNT_MAX_def)
  from write_all_tx[OF this, of t p] obtain r
    where "tx (snd (write_all t (length t) p)) = tx p @ [205, 1, length t div 256, length t mod 256] # r"
    by blast
  then show "\<exists>r. map_option tx (snd (tree_popup_menu_write_handler t (Some p)))
                   = Some (tx p @ [0xCD, 1, length t div 256, length t mod 256] # r)"
    using assms le by (auto simp: tree_popup_menu_write_handler_def split: prod.splits)
qed

theorem capacity_checked_at_use_witness:
  "is_open \<lparr>is_open = True, rx = [], tx = []\<rparr> \<and>
   DEVICES_COUNT_MAX < length (numbered_store 65536) \<and>
   tree_popup_menu_write_handler (numbered_store 65536) (Some \<lparr>is_open = True, rx = [], tx = []\<rparr>)
     = (ShowError ''Too much data'', Some \<lparr>is_open = True, rx = [], tx = []\<rparr>) \<and>
   tree_popup_menu_save_handler (numbered_store 65536) True None = (ShowError ''Too much data'', None) \<and>
   length (lettered_store 2) \<le> DEVICES_COUNT_MAX \<and>
   (\<exists>r. map_option tx (snd (tree_popup_menu_write_handler (lettered_store 2)
                               (Some \<lparr>is_open = True, rx = [], tx = []\<rparr>)))
          = Some ([0xCD, 1, 0, 2] # r))"
  using capacity_checked_at_use[of "\<lparr>is_open = True, rx = [], tx = []\<rparr>" "numbered_store 65536" True None]
    capacity_checked_at_use[of "\<lparr>is_open = True, rx = [], tx = []\<rparr>" "lettered_store 2" True None]
  by (simp add: DEVICES_COUNT_MAX_def numbered_store_def lettered_store_def)

text \<open>
  C9 as stated fails: after 65535 Add dialogs with the identifiers 1 to 65535 the list
  has 65535 records, the Add dialog with the identifier \<open>00010000\<close> succeeds, and the
  list has 65536 records.
\<close>

theorem store_grows_past_limit:
  "length (fold perform (map add_numbered [1..<65536]) []) = 65535 \<and>
   fst (tree_confirm_entry None ''00010000'' ''tag'' (fold perform (map add_numbered [1..<65536]) [])) \<and>
   length (snd (tree_confirm_entry None ''00010000'' ''tag''
                  (fold perform (map add_numbered [1..<65536]) []))) = 65536"
proof -
  have "fold perform (map add_numbered [1..<Suc 65535]) [] = numbered_store 65535"
    by (rule numbered_store_reached) simp
  then have r: "fold perform (map add_numbered [1..<65536]) [] = numbered_store 65535" by simp
  have "id_of_hex ''00010000'' = Some 65536"
    by (simp add: id_of_hex_def fromhex_def hex_digit_def code_def Py_ISSPACE_def unpack_BE_I_def)
  moreover have "\<not> tk_exists (numbered_store 65535) 65536"
    by (simp add: tk_exists_def numbered_store_ids)
  moreover have "length (numbered_store 65535) = 65535"
    by (simp add: numbered_store_def)
  ultimately show ?thesis unfolding r by (simp add: confirm_entry_unfold)
qed

end
